theory Spec2Isabelle
  imports Main "HOL-Library.Sublist" "HOL-Library.AList"
begin

section \<open>Python values and library operations used by the script\<close>

text \<open>
  The script \<^verbatim>\<open>bin/check_samplesheet_vcf.py\<close> reads a delimited table with the
  \<^verbatim>\<open>csv\<close> module, checks every row with a \<^verbatim>\<open>RowChecker\<close> and writes the
  rows back with renamed samples. Strings are \<^typ>\<open>string\<close>; the exceptions the
  script and the library calls it makes can raise are values of \<open>exn\<close>.
\<close>

datatype exn =
    AssertionError string
  | AttributeError
  | KeyError
  | ValueError
  | Csv_Error

text \<open>\<^verbatim>\<open>s.endswith(suf)\<close> on two strings.\<close>

definition endswith :: "string \<Rightarrow> string \<Rightarrow> bool" where
  "endswith s suf = suffix suf s"

text \<open>\<^verbatim>\<open>str(n)\<close> for a non-negative integer: its decimal digits.\<close>

definition digit :: "nat \<Rightarrow> char" where
  "digit d = ''0123456789'' ! d"

fun str_nat :: "nat \<Rightarrow> string" where
  "str_nat n = (if n < 10 then [digit n] else str_nat (n div 10) @ [digit (n mod 10)])"

declare str_nat.simps [simp del]

text \<open>
  A cell of a row is a string, or \<^verbatim>\<open>None\<close> where \<^verbatim>\<open>csv.DictReader\<close> filled a
  missing field with its \<^verbatim>\<open>restval\<close>. \<^verbatim>\<open>str(v)\<close>, which an f-string applies to
  \<^verbatim>\<open>{v}\<close>:
\<close>

fun py_str :: "string option \<Rightarrow> string" where
  "py_str None = ''None''"
| "py_str (Some s) = s"

subsection \<open>Rows: the dicts of \<^verbatim>\<open>csv.DictReader\<close>\<close>

text \<open>
  A row is the dict that \<^verbatim>\<open>csv.DictReader\<close> builds from one record: \<open>cells\<close> maps
  each field name to its cell (an association list in insertion order, as a Python dict
  is), and \<open>rest\<close> is the entry under the key \<^verbatim>\<open>None\<close> (the default
  \<^verbatim>\<open>restkey\<close>) that holds the surplus fields of a record longer than the header.
\<close>

record row =
  cells :: "(string \<times> string option) list"
  rest :: "string list option"

text \<open>\<^verbatim>\<open>row[key]\<close> and \<^verbatim>\<open>row[key] = v\<close> for a string key.\<close>

definition getitem :: "row \<Rightarrow> string \<Rightarrow> exn + string option" where
  "getitem r k = (case map_of (cells r) k of None \<Rightarrow> Inl KeyError | Some v \<Rightarrow> Inr v)"

definition setitem :: "row \<Rightarrow> string \<Rightarrow> string option \<Rightarrow> row" where
  "setitem r k v = r\<lparr>cells := AList.update k v (cells r)\<rparr>"

text \<open>
  \<^verbatim>\<open>DictReader.__next__\<close> on one non-empty record:
  \<^verbatim>\<open>d = dict(zip(fieldnames, row))\<close>, then the surplus fields go under
  \<^verbatim>\<open>restkey\<close>, or the missing ones are set to \<^verbatim>\<open>restval\<close>.
\<close>

definition dict_row :: "string list \<Rightarrow> string list \<Rightarrow> row" where
  "dict_row fieldnames line =
     (let d = fold (\<lambda>(k, v). AList.update k (Some v)) (zip fieldnames line) [];
          lf = length fieldnames;
          lr = length line
      in if lf < lr then \<lparr>cells = d, rest = Some (drop lf line)\<rparr>
         else if lf > lr then
           \<lparr>cells = fold (\<lambda>k. AList.update k None) (drop lr fieldnames) d, rest = None\<rparr>
         else \<lparr>cells = d, rest = None\<rparr>)"

text \<open>Iterating the reader: records with no field at all are skipped.\<close>

definition dict_reader :: "string list \<Rightarrow> string list list \<Rightarrow> row list" where
  "dict_reader fieldnames records = map (dict_row fieldnames) (filter (\<lambda>r. r \<noteq> []) records)"

section \<open>The row checker\<close>

record row_checker =
  sample_col :: string
  vcf_col :: string
  traits_col :: string
  ancestry_col :: string
  seen :: "string option set"
  modified :: "row list"

text \<open>\<^verbatim>\<open>RowChecker()\<close> with the default column names.\<close>

definition RowChecker :: row_checker where
  "RowChecker =
     \<lparr>sample_col = ''sample'', vcf_col = ''vcf'', traits_col = ''traits'',
      ancestry_col = ''ancestry'', seen = {}, modified = []\<rparr>"

text \<open>
  One of the three checks of \<^verbatim>\<open>_validate_sample\<close>:
  \<^verbatim>\<open>if not row[key].endswith(suf): raise AssertionError(f"...{row[key]}...")\<close>.
  A missing key raises \<^verbatim>\<open>KeyError\<close>; \<^verbatim>\<open>None\<close> has no \<^verbatim>\<open>endswith\<close>.
\<close>

definition check_extension ::
  "row \<Rightarrow> string \<Rightarrow> string \<Rightarrow> (string \<Rightarrow> string) \<Rightarrow> exn option" where
  "check_extension r key suf msg =
     (case getitem r key of
        Inl e \<Rightarrow> Some e
      | Inr None \<Rightarrow> Some AttributeError
      | Inr (Some v) \<Rightarrow> if \<not> endswith v suf then Some (AssertionError (msg v)) else None)"

definition vcf_msg :: "string \<Rightarrow> string" where
  "vcf_msg v = ''Unexpected VCF file extension: '' @ v @
     ''. The valid VCF extension should be: vcf.gz.''"

definition traits_msg :: "string \<Rightarrow> string" where
  "traits_msg v = ''Unexpected traits file extension: '' @ v @
     ''. The valid VCF extension should be: _traits-json.json.''"

definition ancestry_msg :: "string \<Rightarrow> string" where
  "ancestry_msg v = ''Unexpected ancestry file extension: '' @ v @
     ''. The valid VCF extension should be: _ancestry-json.json.''"

text \<open>\<^verbatim>\<open>RowChecker._validate_sample\<close>: \<open>None\<close> when nothing is raised.\<close>

definition validate_sample :: "row_checker \<Rightarrow> row \<Rightarrow> exn option" where
  "validate_sample c r =
     (case check_extension r (vcf_col c) ''.vcf.gz'' vcf_msg of
        Some e \<Rightarrow> Some e
      | None \<Rightarrow>
     (case check_extension r (traits_col c) ''_traits-json.json'' traits_msg of
        Some e \<Rightarrow> Some e
      | None \<Rightarrow> check_extension r (ancestry_col c) ''_ancestry-json.json'' ancestry_msg))"

text \<open>
  \<^verbatim>\<open>RowChecker.validate_and_transform\<close>: the exception raised, if any, and the
  checker afterwards (unchanged when a call raises).
\<close>

definition validate_and_transform :: "row_checker \<Rightarrow> row \<Rightarrow> exn option \<times> row_checker" where
  "validate_and_transform c r =
     (case validate_sample c r of
        Some e \<Rightarrow> (Some e, c)
      | None \<Rightarrow>
     (case getitem r (sample_col c) of
        Inl e \<Rightarrow> (Some e, c)
      | Inr s \<Rightarrow> (None, c\<lparr>seen := insert s (seen c), modified := modified c @ [r]\<rparr>)))"

text \<open>
  The loop of \<^verbatim>\<open>validate_unique_samples\<close> over \<^verbatim>\<open>self.modified\<close>, with the
  \<^verbatim>\<open>Counter\<close> as a function (a key never counted reads 0). It returns the exception
  raised, if any, the rows as the loop leaves them, and the counter as it leaves it.
\<close>

fun rename_loop ::
  "string \<Rightarrow> (string option \<Rightarrow> nat) \<Rightarrow> row list \<Rightarrow>
     exn option \<times> row list \<times> (string option \<Rightarrow> nat)" where
  "rename_loop k cnt [] = (None, [], cnt)"
| "rename_loop k cnt (r # rs) =
     (case getitem r k of
        Inl e \<Rightarrow> (Some e, r # rs, cnt)
      | Inr sample \<Rightarrow>
          (let cnt' = cnt(sample := cnt sample + 1);
               r' = setitem r k (Some (py_str sample @ ''_T'' @ str_nat (cnt' sample)));
               (e, rs', cnt'') = rename_loop k cnt' rs
           in (e, r' # rs', cnt'')))"

definition validate_unique_samples :: "row_checker \<Rightarrow> exn option \<times> row_checker" where
  "validate_unique_samples c =
     (if card (seen c) \<noteq> length (modified c)
      then (Some (AssertionError ''The pair of sample name and VCF must be unique.''), c)
      else (let (e, rows, cnt) = rename_loop (sample_col c) (\<lambda>_. 0) (modified c)
            in (e, c\<lparr>modified := rows\<rparr>)))"

section \<open>Reading, checking and writing the sheet\<close>

text \<open>
  What the \<^verbatim>\<open>csv\<close> module makes of the input file. Its sniffer and its tokenizer
  are library heuristics outside the script, so their result is the input here:
  \<^item> \<open>Undetected\<close>: \<^verbatim>\<open>csv.Sniffer\<close> raises \<^verbatim>\<open>csv.Error\<close> (no dialect found);
  \<^item> \<open>Headerless\<close>: \<^verbatim>\<open>Sniffer.has_header\<close> answers \<^verbatim>\<open>False\<close>;
  \<^item> \<open>Table fieldnames records\<close>: a header is seen; \<open>fieldnames\<close> is the first
    record of the file and \<open>records\<close> are the records after it, each a list of fields.
\<close>

datatype csv_input =
    Undetected
  | Headerless
  | Table "string list" "string list list"

text \<open>
  A logged message is a sequence of pieces: literal text, the required columns joined
  with \<^verbatim>\<open>", "\<close> in the iteration order of a Python set (which the language leaves
  open), or the \<^verbatim>\<open>repr\<close> of the list of field names.
\<close>

datatype piece =
    Lit string
  | Joined "string set"
  | Repr "string list"

text \<open>
  How \<^verbatim>\<open>check_samplesheet\<close> ends: it returns, it logs a critical message and calls
  \<^verbatim>\<open>sys.exit\<close>, or an exception leaves it uncaught (the interpreter prints the
  traceback and the process ends with status 1).
\<close>

datatype outcome =
    Returned
  | Sys_exit nat "piece list"
  | Uncaught exn

fun exit_status :: "outcome \<Rightarrow> nat" where
  "exit_status Returned = 0"
| "exit_status (Sys_exit n m) = n"
| "exit_status (Uncaught e) = 1"

definition required_columns :: "string set" where
  "required_columns = {''sample'', ''vcf'', ''traits'', ''ancestry''}"

text \<open>
  \<^verbatim>\<open>sniff_format\<close>: how the process ends when no dialect is returned; otherwise the
  field names and the records that the reader yields under the dialect returned.
\<close>

fun sniff_format :: "csv_input \<Rightarrow> outcome + string list \<times> string list list" where
  "sniff_format Undetected = Inl (Uncaught Csv_Error)"
| "sniff_format Headerless =
     Inl (Sys_exit 1 [Lit ''The given sample sheet does not appear to contain a header.''])"
| "sniff_format (Table fieldnames records) = Inr (fieldnames, records)"

text \<open>
  The loop \<^verbatim>\<open>for i, row in enumerate(reader)\<close>: the index and the exception of the
  first row on which \<^verbatim>\<open>validate_and_transform\<close> raises, or the checker after the
  last row.
\<close>

fun validate_rows :: "row_checker \<Rightarrow> nat \<Rightarrow> row list \<Rightarrow> (nat \<times> exn) + row_checker" where
  "validate_rows c i [] = Inr c"
| "validate_rows c i (r # rs) =
     (case validate_and_transform c r of
        (Some e, c') \<Rightarrow> Inl (i, e)
      | (None, c') \<Rightarrow> validate_rows c' (Suc i) rs)"

text \<open>
  What the \<^verbatim>\<open>except AssertionError\<close> clause makes of an exception raised on row
  \<open>i\<close>: an assertion error is logged with its line and the process exits with 1; any
  other exception is not caught.
\<close>

fun row_failure :: "nat \<Rightarrow> exn \<Rightarrow> outcome" where
  "row_failure i (AssertionError m) =
     Sys_exit 1 [Lit (m @ '' On line '' @ str_nat (i + 2) @ ''.'')]"
| "row_failure i e = Uncaught e"

text \<open>\<^verbatim>\<open>header.insert(i, x)\<close>: past the end of the list it appends.\<close>

definition list_insert :: "nat \<Rightarrow> 'a \<Rightarrow> 'a list \<Rightarrow> 'a list" where
  "list_insert i x xs = take i xs @ [x] @ drop i xs"

text \<open>
  \<^verbatim>\<open>csv.DictWriter\<close> with its defaults \<^verbatim>\<open>restval=""\<close> and
  \<^verbatim>\<open>extrasaction="raise"\<close>: a row with a key that is no field name raises
  \<^verbatim>\<open>ValueError\<close>; otherwise the cells are listed in the order of the field names, a
  missing key as the empty string, and \<^verbatim>\<open>None\<close> is written as the empty string.
\<close>

fun field_text :: "string option \<Rightarrow> string" where
  "field_text None = []"
| "field_text (Some s) = s"

definition cell_text :: "row \<Rightarrow> string \<Rightarrow> string" where
  "cell_text r k = (case map_of (cells r) k of None \<Rightarrow> [] | Some v \<Rightarrow> field_text v)"

definition dict_to_list :: "string list \<Rightarrow> row \<Rightarrow> exn + string list" where
  "dict_to_list fieldnames r =
     (if rest r \<noteq> None \<or> \<not> set (map fst (cells r)) \<subseteq> set fieldnames
      then Inl ValueError
      else Inr (map (cell_text r) fieldnames))"

text \<open>
  The loop \<^verbatim>\<open>for row in checker.modified: writer.writerow(row)\<close>; \<open>out\<close> holds
  the lines written so far.
\<close>

fun write_rows ::
  "string list \<Rightarrow> row list \<Rightarrow> string list list \<Rightarrow> exn option \<times> string list list" where
  "write_rows header [] out = (None, out)"
| "write_rows header (r # rs) out =
     (case dict_to_list header r of
        Inl e \<Rightarrow> (Some e, out)
      | Inr l \<Rightarrow> write_rows header rs (out @ [l]))"

text \<open>
  \<^verbatim>\<open>check_samplesheet\<close>. The result is how the call ends and what happened to the
  output file: \<open>None\<close> when \<^verbatim>\<open>file_out.open(mode="w")\<close> was never reached (the
  file is as it was before, present or not), \<open>Some lines\<close> when it was opened for
  writing and holds these lines, the header line first.
\<close>

definition check_samplesheet :: "csv_input \<Rightarrow> outcome \<times> string list list option" where
  "check_samplesheet inp =
     (case sniff_format inp of
        Inl out \<Rightarrow> (out, None)
      | Inr (fieldnames, records) \<Rightarrow>
          if \<not> required_columns \<subseteq> set fieldnames
          then (Sys_exit 1
                  [Lit ''The sample sheet **must** contain these column headers: '',
                   Joined required_columns,
                   Lit ''. It currently contains '',
                   Repr fieldnames], None)
          else
            (case validate_rows RowChecker 0 (dict_reader fieldnames records) of
               Inl (i, e) \<Rightarrow> (row_failure i e, None)
             | Inr checker \<Rightarrow>
            (case validate_unique_samples checker of
               (Some e, checker') \<Rightarrow> (Uncaught e, None)
             | (None, checker') \<Rightarrow>
                 (let header = list_insert 1 ''single_end'' fieldnames in
                  case write_rows header (modified checker') [header] of
                    (Some e, out) \<Rightarrow> (Uncaught e, Some out)
                  | (None, out) \<Rightarrow> (Returned, Some out)))))"

text \<open>
  The checker's part of \<^verbatim>\<open>check_samplesheet\<close> on its own: every row goes through
  \<^verbatim>\<open>validate_and_transform\<close>, then \<^verbatim>\<open>validate_unique_samples\<close> renames; the result
  is \<^verbatim>\<open>checker.modified\<close>, or the exception that ended the pass.
\<close>

definition validate_and_rename :: "row list \<Rightarrow> exn + row list" where
  "validate_and_rename rows =
     (case validate_rows RowChecker 0 rows of
        Inl (i, e) \<Rightarrow> Inl e
      | Inr checker \<Rightarrow>
     (case validate_unique_samples checker of
        (Some e, checker') \<Rightarrow> Inl e
      | (None, checker') \<Rightarrow> Inr (modified checker')))"

text \<open>The cell of a row under a key that the row has (\<open>None\<close> also for a key it lacks).\<close>

definition cell :: "row \<Rightarrow> string \<Rightarrow> string option" where
  "cell r k = (case map_of (cells r) k of None \<Rightarrow> None | Some v \<Rightarrow> v)"

section \<open>Facts about the checker\<close>

lemma str_nat_1: "str_nat (Suc 0) = ''1''"
  by (simp add: str_nat.simps digit_def)

lemma validate_sample_upd [simp]:
  "validate_sample (c\<lparr>seen := S, modified := M\<rparr>) r = validate_sample c r"
  by (simp add: validate_sample_def split: option.splits)

lemma vat_fst_upd [simp]:
  "fst (validate_and_transform (c\<lparr>seen := S, modified := M\<rparr>) r) = fst (validate_and_transform c r)"
  by (simp add: validate_and_transform_def split: option.splits sum.splits)

lemma vat_accept:
  "fst (validate_and_transform c r) = None \<Longrightarrow>
   validate_and_transform c r = (None, c\<lparr>seen := insert (cell r (sample_col c)) (seen c), modified := modified c @ [r]\<rparr>)"
  by (auto simp: validate_and_transform_def getitem_def cell_def split: option.splits sum.splits)

lemma vat_accept_iff:
  "fst (validate_and_transform c r) = None \<longleftrightarrow>
   validate_sample c r = None \<and> map_of (cells r) (sample_col c) \<noteq> None"
  by (auto simp: validate_and_transform_def getitem_def split: option.splits sum.splits)

lemma validate_rows_append:
  "\<forall>r\<in>set pre. fst (validate_and_transform c r) = None \<Longrightarrow>
   validate_rows c i (pre @ post) =
   validate_rows (c\<lparr>seen := seen c \<union> (\<lambda>r. cell r (sample_col c)) ` set pre, modified := modified c @ pre\<rparr>)
     (i + length pre) post"
proof (induction pre arbitrary: c i)
  case Nil
  then show ?case by simp
next
  case (Cons r pre)
  let ?c = "c\<lparr>seen := insert (cell r (sample_col c)) (seen c), modified := modified c @ [r]\<rparr>"
  from Cons.prems have r: "validate_and_transform c r = (None, ?c)"
    by (simp add: vat_accept)
  from Cons.prems have "\<forall>x\<in>set pre. fst (validate_and_transform ?c x) = None"
    by simp
  from Cons.IH [OF this, of "Suc i"] r show ?case
    by simp
qed

lemma validate_rows_all:
  assumes "\<forall>r\<in>set rows. fst (validate_and_transform c r) = None"
  shows "validate_rows c i rows =
    Inr (c\<lparr>seen := seen c \<union> (\<lambda>r. cell r (sample_col c)) ` set rows, modified := modified c @ rows\<rparr>)"
  using validate_rows_append [OF assms, of i "[]"] by simp

lemma validate_rows_first:
  assumes "\<forall>r\<in>set pre. fst (validate_and_transform c r) = None"
    and "fst (validate_and_transform c r) = Some e"
  shows "validate_rows c i (pre @ r # post) = Inl (i + length pre, e)"
proof -
  let ?c = "c\<lparr>seen := seen c \<union> (\<lambda>r. cell r (sample_col c)) ` set pre, modified := modified c @ pre\<rparr>"
  have "fst (validate_and_transform ?c r) = Some e"
    using assms(2) by simp
  then have "validate_rows ?c (i + length pre) (r # post) = Inl (i + length pre, e)"
    by (cases "validate_and_transform ?c r") simp
  with validate_rows_append [OF assms(1)] show ?thesis by simp
qed

lemma validate_rows_cases:
  "(\<forall>r\<in>set rows. fst (validate_and_transform c r) = None) \<or>
   (\<exists>pre r post e. rows = pre @ r # post \<and> (\<forall>x\<in>set pre. fst (validate_and_transform c x) = None) \<and>
       fst (validate_and_transform c r) = Some e)"
proof (cases "\<forall>r\<in>set rows. fst (validate_and_transform c r) = None")
  case True
  then show ?thesis by simp
next
  case False
  then have "\<exists>x\<in>set rows. fst (validate_and_transform c x) \<noteq> None" by simp
  from split_list_first_prop [OF this]
  obtain pre r post where "rows = pre @ r # post" "fst (validate_and_transform c r) \<noteq> None"
    "\<forall>x\<in>set pre. \<not> fst (validate_and_transform c x) \<noteq> None" by blast
  then show ?thesis by auto
qed

lemma validate_rows_Inr:
  assumes "validate_rows c i rows = Inr c'"
  shows "(\<forall>r\<in>set rows. fst (validate_and_transform c r) = None) \<and>
     c' = c\<lparr>seen := seen c \<union> (\<lambda>r. cell r (sample_col c)) ` set rows, modified := modified c @ rows\<rparr>"
proof -
  from validate_rows_cases [of rows c] show ?thesis
  proof
    assume a: "\<forall>r\<in>set rows. fst (validate_and_transform c r) = None"
    from validate_rows_all [OF a, of i] assms a show ?thesis by simp
  next
    assume "\<exists>pre r post e. rows = pre @ r # post \<and> (\<forall>x\<in>set pre. fst (validate_and_transform c x) = None) \<and>
       fst (validate_and_transform c r) = Some e"
    then obtain pre r post e where "rows = pre @ r # post" "\<forall>x\<in>set pre. fst (validate_and_transform c x) = None"
       "fst (validate_and_transform c r) = Some e" by blast
    with validate_rows_first [of pre c r e i post] assms show ?thesis by simp
  qed
qed

lemma validate_rows_Inl:
  assumes "validate_rows c i rows = Inl (j, e)"
  shows "\<exists>pre r post. rows = pre @ r # post \<and> j = i + length pre \<and>
     (\<forall>x\<in>set pre. fst (validate_and_transform c x) = None) \<and> fst (validate_and_transform c r) = Some e"
proof -
  from validate_rows_cases [of rows c] show ?thesis
  proof
    assume a: "\<forall>r\<in>set rows. fst (validate_and_transform c r) = None"
    from validate_rows_all [OF a, of i] assms show ?thesis by simp
  next
    assume "\<exists>pre r post e. rows = pre @ r # post \<and> (\<forall>x\<in>set pre. fst (validate_and_transform c x) = None) \<and>
       fst (validate_and_transform c r) = Some e"
    then obtain pre r post e' where *: "rows = pre @ r # post" "\<forall>x\<in>set pre. fst (validate_and_transform c x) = None"
       "fst (validate_and_transform c r) = Some e'" by blast
    with validate_rows_first [of pre c r e' i post] assms have "j = i + length pre" "e' = e" by simp_all
    with * show ?thesis by blast
  qed
qed

lemma rename_loop_distinct:
  "\<forall>r\<in>set rows. map_of (cells r) k \<noteq> None \<Longrightarrow>
   distinct (map (\<lambda>r. cell r k) rows) \<Longrightarrow>
   \<forall>r\<in>set rows. cnt (cell r k) = 0 \<Longrightarrow>
   rename_loop k cnt rows =
     (None, map (\<lambda>r. setitem r k (Some (py_str (cell r k) @ ''_T1''))) rows,
      (\<lambda>s. if s \<in> (\<lambda>r. cell r k) ` set rows then 1 else cnt s))"
proof (induction rows arbitrary: cnt)
  case Nil
  then show ?case by simp
next
  case (Cons r rows)
  let ?s = "cell r k"
  let ?cnt = "cnt(?s := cnt ?s + 1)"
  from Cons.prems have g: "getitem r k = Inr ?s"
    by (auto simp: getitem_def cell_def split: option.splits)
  from Cons.prems have c0: "cnt ?s = 0" by simp
  from Cons.prems have p1: "\<forall>r\<in>set rows. map_of (cells r) k \<noteq> None" by simp
  from Cons.prems have p2: "distinct (map (\<lambda>r. cell r k) rows)" by simp
  from Cons.prems have notin: "?s \<notin> (\<lambda>r. cell r k) ` set rows" by simp
  have p3: "\<forall>x\<in>set rows. ?cnt (cell x k) = 0"
  proof
    fix x assume x: "x \<in> set rows"
    have "cell x k \<noteq> ?s"
    proof
      assume "cell x k = ?s"
      then have "?s = (\<lambda>r. cell r k) x" by simp
      then have "?s \<in> (\<lambda>r. cell r k) ` set rows" using x by (rule image_eqI)
      with notin show False by contradiction
    qed
    with x Cons.prems show "?cnt (cell x k) = 0" by simp
  qed
  note ih = Cons.IH [OF p1 p2 p3]
  have step: "rename_loop k cnt (r # rows) =
     (case rename_loop k ?cnt rows of
        (e, rs', cnt'') \<Rightarrow>
          (e, setitem r k (Some (py_str ?s @ ''_T'' @ str_nat (?cnt ?s))) # rs', cnt''))"
    using g by (simp add: Let_def)
  have one: "str_nat (?cnt ?s) = ''1''"
    using c0 by (simp add: str_nat_1)
  have feq: "(\<lambda>s. if s \<in> (\<lambda>r. cell r k) ` set rows then 1 else ?cnt s) =
        (\<lambda>s. if s \<in> (\<lambda>r. cell r k) ` set (r # rows) then 1 else cnt s)"
    using c0 by (auto simp: fun_eq_iff)
  show ?case
    unfolding step ih one feq by simp
qed


lemma accepted_getitem:
  "fst (validate_and_transform c r) = None \<Longrightarrow> getitem r (sample_col c) = Inr (cell r (sample_col c))"
  by (auto simp: vat_accept_iff getitem_def cell_def)

lemma validate_unique_samples_violated:
  "card (seen c) \<noteq> length (modified c) \<Longrightarrow>
   validate_unique_samples c =
     (Some (AssertionError ''The pair of sample name and VCF must be unique.''), c)"
  by (simp add: validate_unique_samples_def)

lemma validate_unique_samples_None:
  "validate_unique_samples c = (None, c') \<Longrightarrow> card (seen c) = length (modified c)"
  by (auto simp: validate_unique_samples_def split: if_splits)

lemma RowChecker_simps [simp]:
  "sample_col RowChecker = ''sample''" "vcf_col RowChecker = ''vcf''"
  "traits_col RowChecker = ''traits''" "ancestry_col RowChecker = ''ancestry''"
  "seen RowChecker = {}" "modified RowChecker = []"
  by (simp_all add: RowChecker_def)

lemma checked_rows:
  assumes "validate_rows RowChecker i rows = Inr c"
  shows "c = RowChecker\<lparr>seen := (\<lambda>r. cell r ''sample'') ` set rows, modified := rows\<rparr>"
    and "\<forall>r\<in>set rows. fst (validate_and_transform RowChecker r) = None"
  using validate_rows_Inr [OF assms] by simp_all

lemma unique_iff_distinct:
  "card ((\<lambda>r. cell r k) ` set rows) = length rows \<longleftrightarrow> distinct (map (\<lambda>r. cell r k) rows)"
proof -
  have "card (set (map (\<lambda>r. cell r k) rows)) = length (map (\<lambda>r. cell r k) rows)
      \<longleftrightarrow> distinct (map (\<lambda>r. cell r k) rows)"
    using card_distinct distinct_card by blast
  then show ?thesis by simp
qed

lemma rename_checked_rows:
  assumes acc: "\<forall>r\<in>set rows. fst (validate_and_transform RowChecker r) = None"
    and dist: "distinct (map (\<lambda>r. cell r ''sample'') rows)"
  shows "rename_loop ''sample'' (\<lambda>_. 0) rows =
     (None, map (\<lambda>r. setitem r ''sample'' (Some (py_str (cell r ''sample'') @ ''_T1''))) rows,
      (\<lambda>s. if s \<in> (\<lambda>r. cell r ''sample'') ` set rows then 1 else 0))"
proof -
  from acc have "\<forall>r\<in>set rows. map_of (cells r) ''sample'' \<noteq> None"
    by (simp add: vat_accept_iff)
  from rename_loop_distinct [OF this dist, of "\<lambda>_. 0"] show ?thesis by simp
qed

subsection \<open>Rows as the reader builds them, and the writer\<close>

lemma fold_update_keys:
  "fst ` set (fold (\<lambda>(k, v). AList.update k (g v)) kvs d) = fst ` set d \<union> fst ` set kvs"
  by (induction kvs arbitrary: d) (auto simp: dom_update split: prod.splits)

lemma fold_update_None_keys:
  "fst ` set (fold (\<lambda>k. AList.update k v) ks d) = fst ` set d \<union> set ks"
  by (induction ks arbitrary: d) (auto simp: dom_update)

lemma fst_set_zip: "fst ` set (zip xs ys) = set (take (length ys) xs)"
proof -
  have "fst ` set (zip xs ys) = set (map fst (zip xs ys))" by simp
  also have "\<dots> = set (take (min (length xs) (length ys)) xs)"
    by (simp only: map_fst_zip_take)
  also have "take (min (length xs) (length ys)) xs = take (length ys) xs"
    by (simp add: min_def)
  finally show ?thesis .
qed

lemma dict_row_keys: "fst ` set (cells (dict_row f l)) = set f"
proof -
  have "set (take (length l) f) \<union> set (drop (length l) f) = set f"
    by (metis append_take_drop_id set_append)
  then show ?thesis
    by (auto simp: dict_row_def Let_def fold_update_keys fold_update_None_keys fst_set_zip)
qed

lemma dict_row_has_key: "k \<in> set f \<Longrightarrow> \<exists>y. map_of (cells (dict_row f l)) k = Some y"
  using dict_row_keys [of f l] by (metis map_of_eq_None_iff not_None_eq)

lemma dict_reader_has_key:
  "k \<in> set f \<Longrightarrow> r \<in> set (dict_reader f recs) \<Longrightarrow> \<exists>y. map_of (cells r) k = Some y"
  by (auto simp: dict_reader_def dict_row_has_key)

lemma sample_required: "required_columns \<subseteq> set f \<Longrightarrow> ''sample'' \<in> set f"
  by (auto simp: required_columns_def)

lemma parsed_accept_iff:
  assumes "required_columns \<subseteq> set f" and "r \<in> set (dict_reader f recs)"
  shows "fst (validate_and_transform RowChecker r) = validate_sample RowChecker r"
proof -
  from assms(1) have "''sample'' \<in> set f" by (rule sample_required)
  from dict_reader_has_key [OF this assms(2)]
  have "\<exists>y. map_of (cells r) ''sample'' = Some y" .
  then show ?thesis
    by (auto simp: validate_and_transform_def getitem_def split: option.splits)
qed

lemma write_rows_Some: "\<exists>e out. write_rows header rows acc = (e, out)"
  by (cases "write_rows header rows acc") simp

lemma write_rows_exn:
  "write_rows header rows acc = (Some e, out) \<Longrightarrow> e = ValueError"
  by (induction rows arbitrary: acc)
     (auto simp: dict_to_list_def split: sum.splits if_splits)

lemma check_table_unfold:
  "required_columns \<subseteq> set f \<Longrightarrow>
   check_samplesheet (Table f recs) =
     (case validate_rows RowChecker 0 (dict_reader f recs) of
        Inl (i, e) \<Rightarrow> (row_failure i e, None)
      | Inr checker \<Rightarrow>
     (case validate_unique_samples checker of
        (Some e, checker') \<Rightarrow> (Uncaught e, None)
      | (None, checker') \<Rightarrow>
          (case write_rows (list_insert 1 ''single_end'' f) (modified checker')
                  [list_insert 1 ''single_end'' f] of
             (Some e, out) \<Rightarrow> (Uncaught e, Some out)
           | (None, out) \<Rightarrow> (Returned, Some out))))"
  by (auto simp: check_samplesheet_def Let_def split: sum.splits prod.splits option.splits)

lemma validate_unique_samples_checked:
  assumes acc: "\<forall>r\<in>set rows. fst (validate_and_transform RowChecker r) = None"
    and dist: "distinct (map (\<lambda>r. cell r ''sample'') rows)"
  shows "validate_unique_samples (RowChecker\<lparr>seen := (\<lambda>r. cell r ''sample'') ` set rows, modified := rows\<rparr>) =
     (None, RowChecker\<lparr>seen := (\<lambda>r. cell r ''sample'') ` set rows,
        modified := map (\<lambda>r. setitem r ''sample'' (Some (py_str (cell r ''sample'') @ ''_T1''))) rows\<rparr>)"
proof -
  from dist have "card ((\<lambda>r. cell r ''sample'') ` set rows) = length rows"
    by (simp add: unique_iff_distinct)
  with rename_checked_rows [OF acc dist] show ?thesis
    by (simp add: validate_unique_samples_def)
qed

subsection \<open>Writing a cell\<close>

lemma getitem_setitem_other:
  "k \<noteq> k' \<Longrightarrow> getitem (setitem r k' v) k = getitem r k"
  by (simp add: getitem_def setitem_def update_conv')

lemma map_of_setitem_same: "map_of (cells (setitem r k v)) k = Some v"
  by (simp add: setitem_def update_conv')

lemma cell_setitem_same: "cell (setitem r k v) k = v"
  by (simp add: cell_def map_of_setitem_same)

lemma setitem_setitem: "setitem (setitem r k v) k w = setitem r k w"
  by (simp add: setitem_def)

lemma check_extension_setitem_other:
  "k \<noteq> k' \<Longrightarrow> check_extension (setitem r k' v) k suf msg = check_extension r k suf msg"
  by (simp add: check_extension_def getitem_setitem_other)

lemma validate_sample_renamed:
  "validate_sample RowChecker (setitem r ''sample'' v) = validate_sample RowChecker r"
  by (simp add: validate_sample_def check_extension_setitem_other split: option.splits)

lemma accepted_renamed:
  "fst (validate_and_transform RowChecker r) = None \<Longrightarrow>
   fst (validate_and_transform RowChecker (setitem r ''sample'' v)) = None"
  by (simp add: vat_accept_iff validate_sample_renamed map_of_setitem_same)

lemma getitem_setitem_same: "getitem (setitem r k v) k = Inr v"
  by (simp add: getitem_def map_of_setitem_same)

lemma rest_setitem: "rest (setitem r k v) = rest r"
  by (simp add: setitem_def)

lemma getitem_cell: "getitem r k = Inr v \<Longrightarrow> cell r k = v"
  by (auto simp: getitem_def cell_def split: option.splits)

lemma sample_suffix_cases:
  "py_str v @ ''_T1'' = (case v of None \<Rightarrow> ''None_T1'' | Some s \<Rightarrow> s @ ''_T1'')"
  by (cases v) simp_all

lemma field_text_cases: "field_text v = (case v of None \<Rightarrow> [] | Some s \<Rightarrow> s)"
  by (cases v) simp_all

text \<open>What the rows hold after the renaming, cell by cell.\<close>

lemma renamed_cells:
  assumes "r' = setitem r ''sample'' (Some (py_str (cell r ''sample'') @ ''_T1''))"
  shows "\<forall>s. getitem r ''sample'' = Inr (Some s) \<longrightarrow>
           getitem r' ''sample'' = Inr (Some (s @ ''_T1''))"
    and "getitem r ''sample'' = Inr None \<longrightarrow> getitem r' ''sample'' = Inr (Some ''None_T1'')"
    and "\<forall>k. k \<noteq> ''sample'' \<longrightarrow> getitem r' k = getitem r k"
    and "rest r' = rest r"
  unfolding assms
  by (auto simp: getitem_setitem_same getitem_setitem_other rest_setitem dest: getitem_cell)

section \<open>The uniqueness check and the renaming pass\<close>

text \<open>
  C1. The specification expects two rows with the same sample and different VCF files to
  come out as \<open>S1_T1\<close> and \<open>S1_T2\<close>, as the docstring of
  \<^verbatim>\<open>validate_unique_samples\<close> describes. The code puts only the sample name into
  \<^verbatim>\<open>_seen\<close>, so on such a sheet the set has one element for two rows, the
  uniqueness assertion fails and nothing is written.
\<close>

theorem same_sample_two_vcfs_rejected:
  "check_samplesheet (Table [''sample'', ''vcf'', ''traits'', ''ancestry'']
     [[''S1'', ''S1_run1.vcf.gz'', ''S1_traits-json.json'', ''S1_ancestry-json.json''],
      [''S1'', ''S1_run2.vcf.gz'', ''S1_traits-json.json'', ''S1_ancestry-json.json'']]) =
   (Uncaught (AssertionError ''The pair of sample name and VCF must be unique.''), None)"
  by code_simp

text \<open>
  C3. The renaming pass runs only when the number of distinct sample values seen equals
  the number of accepted rows. When the two differ, \<^verbatim>\<open>validate_unique_samples\<close>
  raises before its loop, so the checker, and with it every row's sample, is as it was;
  the assertion error is not caught, the process ends with status 1 and the output file
  is not opened.
\<close>

theorem renaming_needs_unique_samples:
  assumes "required_columns \<subseteq> set fieldnames"
    and "validate_rows RowChecker 0 (dict_reader fieldnames records) = Inr c"
    and "card (seen c) \<noteq> length (modified c)"
  shows "validate_unique_samples c =
           (Some (AssertionError ''The pair of sample name and VCF must be unique.''), c)
       \<and> check_samplesheet (Table fieldnames records) =
           (Uncaught (AssertionError ''The pair of sample name and VCF must be unique.''), None)
       \<and> exit_status (fst (check_samplesheet (Table fieldnames records))) = 1"
  using assms by (simp add: check_samplesheet_def validate_unique_samples_violated)

theorem renaming_needs_unique_samples_witness:
  "card (seen (RowChecker\<lparr>seen := {Some ''S1''},
       modified := dict_reader [''sample'', ''vcf'', ''traits'', ''ancestry'']
         [[''S1'', ''a.vcf.gz'', ''a_traits-json.json'', ''a_ancestry-json.json''],
          [''S1'', ''b.vcf.gz'', ''b_traits-json.json'', ''b_ancestry-json.json'']]\<rparr>)) = 1
   \<and> check_samplesheet (Table [''sample'', ''vcf'', ''traits'', ''ancestry'']
         [[''S1'', ''a.vcf.gz'', ''a_traits-json.json'', ''a_ancestry-json.json''],
          [''S1'', ''b.vcf.gz'', ''b_traits-json.json'', ''b_ancestry-json.json'']]) =
       (Uncaught (AssertionError ''The pair of sample name and VCF must be unique.''), None)"
proof -
  let ?f = "[''sample'', ''vcf'', ''traits'', ''ancestry'']"
  let ?recs = "[[''S1'', ''a.vcf.gz'', ''a_traits-json.json'', ''a_ancestry-json.json''],
          [''S1'', ''b.vcf.gz'', ''b_traits-json.json'', ''b_ancestry-json.json'']]"
  let ?c = "RowChecker\<lparr>seen := {Some ''S1''}, modified := dict_reader ?f ?recs\<rparr>"
  have h1: "required_columns \<subseteq> set ?f"
    by (simp add: required_columns_def)
  have h2: "validate_rows RowChecker 0 (dict_reader ?f ?recs) = Inr ?c"
    by code_simp
  have h3: "card (seen ?c) \<noteq> length (modified ?c)"
    by (simp add: dict_reader_def)
  from renaming_needs_unique_samples [OF h1 h2 h3] show ?thesis by simp
qed

text \<open>
  C9, as it is stated, fails for a row whose sample cell is missing. When the \<open>sample\<close>
  column lies beyond the end of a short record the cell is \<^verbatim>\<open>None\<close>, and the
  f-string renders it as the text \<open>None\<close>: the row comes out with the sample
  \<open>None_T1\<close>, which is not its original value followed by \<open>_T1\<close>. A sheet that also
  has a sample named \<open>None\<close> passes the uniqueness check and comes out with
  \<open>None_T1\<close> twice.
\<close>

theorem missing_sample_becomes_None_T1:
  "getitem (dict_row [''vcf'', ''traits'', ''ancestry'', ''sample'']
       [''a.vcf.gz'', ''a_traits-json.json'', ''a_ancestry-json.json'']) ''sample'' = Inr None
   \<and> check_samplesheet (Table [''vcf'', ''traits'', ''ancestry'', ''sample'']
       [[''a.vcf.gz'', ''a_traits-json.json'', ''a_ancestry-json.json''],
        [''b.vcf.gz'', ''b_traits-json.json'', ''b_ancestry-json.json'', ''None'']]) =
     (Returned, Some
        [[''vcf'', ''single_end'', ''traits'', ''ancestry'', ''sample''],
         [''a.vcf.gz'', [], ''a_traits-json.json'', ''a_ancestry-json.json'', ''None_T1''],
         [''b.vcf.gz'', [], ''b_traits-json.json'', ''b_ancestry-json.json'', ''None_T1'']])"
  by code_simp

text \<open>
  C9, amended. When all rows are accepted and \<^verbatim>\<open>validate_unique_samples\<close> returns
  without raising, the sample cells of the rows are pairwise distinct and the counter of
  the renaming loop ends at most at 1 for every sample (it only grows, so it never
  exceeds 1). There are as many rows as before, and reading \<^verbatim>\<open>row["sample"]\<close> of a
  renamed row gives the string \<open>s_T1\<close> when the cell was the string \<open>s\<close>, and
  \<open>None_T1\<close> when the cell was \<^verbatim>\<open>None\<close>; every other cell reads as before. No
  other suffix can be produced.
\<close>

theorem renaming_only_appends_T1:
  assumes "validate_rows RowChecker 0 rows = Inr c"
    and "validate_unique_samples c = (None, c')"
  shows "distinct (map (\<lambda>r. getitem r ''sample'') rows)
       \<and> (\<exists>cnt. rename_loop ''sample'' (\<lambda>_. 0) rows = (None, modified c', cnt) \<and> (\<forall>s. cnt s \<le> 1))
       \<and> modified c' =
           map (\<lambda>r. setitem r ''sample'' (Some (py_str (cell r ''sample'') @ ''_T1''))) rows
       \<and> length (modified c') = length rows
       \<and> (\<forall>i<length rows.
             (\<forall>s. getitem (rows ! i) ''sample'' = Inr (Some s) \<longrightarrow>
                  getitem (modified c' ! i) ''sample'' = Inr (Some (s @ ''_T1'')))
           \<and> (getitem (rows ! i) ''sample'' = Inr None \<longrightarrow>
                  getitem (modified c' ! i) ''sample'' = Inr (Some ''None_T1''))
           \<and> (\<forall>k. k \<noteq> ''sample'' \<longrightarrow> getitem (modified c' ! i) k = getitem (rows ! i) k)
           \<and> rest (modified c' ! i) = rest (rows ! i))"
proof -
  let ?ren = "\<lambda>r. setitem r ''sample'' (Some (py_str (cell r ''sample'') @ ''_T1''))"
  note c = checked_rows [OF assms(1)]
  from validate_unique_samples_None [OF assms(2)] c(1)
  have dist: "distinct (map (\<lambda>r. cell r ''sample'') rows)"
    by (simp add: unique_iff_distinct)
  note loop = rename_checked_rows [OF c(2) dist]
  from assms(2) c(1) loop
  have out: "modified c' = map ?ren rows"
    by (auto simp: validate_unique_samples_def split: if_splits)
  have "map (\<lambda>r. getitem r ''sample'') rows = map (\<lambda>r. Inr (cell r ''sample'')) rows"
    using c(2) accepted_getitem [of RowChecker] by simp
  also have "\<dots> = map Inr (map (\<lambda>r. cell r ''sample'') rows)"
    by simp
  finally have d: "distinct (map (\<lambda>r. getitem r ''sample'') rows)"
    using dist by (simp add: distinct_map del: map_map)
  from loop out
  have cnt: "\<exists>cnt. rename_loop ''sample'' (\<lambda>_. 0) rows = (None, modified c', cnt) \<and> (\<forall>s. cnt s \<le> 1)"
    by simp
  from out have len: "length (modified c') = length rows" by simp
  have cells: "\<forall>i<length rows.
             (\<forall>s. getitem (rows ! i) ''sample'' = Inr (Some s) \<longrightarrow>
                  getitem (modified c' ! i) ''sample'' = Inr (Some (s @ ''_T1'')))
           \<and> (getitem (rows ! i) ''sample'' = Inr None \<longrightarrow>
                  getitem (modified c' ! i) ''sample'' = Inr (Some ''None_T1''))
           \<and> (\<forall>k. k \<noteq> ''sample'' \<longrightarrow> getitem (modified c' ! i) k = getitem (rows ! i) k)
           \<and> rest (modified c' ! i) = rest (rows ! i)"
  proof (intro allI impI)
    fix i assume i: "i < length rows"
    with out have r': "modified c' ! i = ?ren (rows ! i)" by simp
    from renamed_cells [OF r']
    show "(\<forall>s. getitem (rows ! i) ''sample'' = Inr (Some s) \<longrightarrow>
                  getitem (modified c' ! i) ''sample'' = Inr (Some (s @ ''_T1'')))
           \<and> (getitem (rows ! i) ''sample'' = Inr None \<longrightarrow>
                  getitem (modified c' ! i) ''sample'' = Inr (Some ''None_T1''))
           \<and> (\<forall>k. k \<noteq> ''sample'' \<longrightarrow> getitem (modified c' ! i) k = getitem (rows ! i) k)
           \<and> rest (modified c' ! i) = rest (rows ! i)"
      by (intro conjI)
  qed
  from d cnt out len cells show ?thesis by (intro conjI)
qed

theorem renaming_only_appends_T1_witness:
  "validate_rows RowChecker 0
     (dict_reader [''sample'', ''vcf'', ''traits'', ''ancestry'']
        [[''S1'', ''a.vcf.gz'', ''a_traits-json.json'', ''a_ancestry-json.json''],
         [''S2'', ''b.vcf.gz'', ''b_traits-json.json'', ''b_ancestry-json.json'']]) =
     Inr (RowChecker\<lparr>seen := {Some ''S1'', Some ''S2''},
        modified := dict_reader [''sample'', ''vcf'', ''traits'', ''ancestry'']
          [[''S1'', ''a.vcf.gz'', ''a_traits-json.json'', ''a_ancestry-json.json''],
           [''S2'', ''b.vcf.gz'', ''b_traits-json.json'', ''b_ancestry-json.json'']]\<rparr>)
   \<and> validate_unique_samples
     (RowChecker\<lparr>seen := {Some ''S1'', Some ''S2''},
        modified := dict_reader [''sample'', ''vcf'', ''traits'', ''ancestry'']
          [[''S1'', ''a.vcf.gz'', ''a_traits-json.json'', ''a_ancestry-json.json''],
           [''S2'', ''b.vcf.gz'', ''b_traits-json.json'', ''b_ancestry-json.json'']]\<rparr>) =
     (None, RowChecker\<lparr>seen := {Some ''S1'', Some ''S2''},
        modified := dict_reader [''sample'', ''vcf'', ''traits'', ''ancestry'']
          [[''S1_T1'', ''a.vcf.gz'', ''a_traits-json.json'', ''a_ancestry-json.json''],
           [''S2_T1'', ''b.vcf.gz'', ''b_traits-json.json'', ''b_ancestry-json.json'']]\<rparr>)
   \<and> getitem (dict_reader [''sample'', ''vcf'', ''traits'', ''ancestry'']
          [[''S1_T1'', ''a.vcf.gz'', ''a_traits-json.json'', ''a_ancestry-json.json''],
           [''S2_T1'', ''b.vcf.gz'', ''b_traits-json.json'', ''b_ancestry-json.json'']] ! 0)
        ''sample'' = Inr (Some ''S1_T1'')
   \<and> getitem (dict_reader [''sample'', ''vcf'', ''traits'', ''ancestry'']
          [[''S1_T1'', ''a.vcf.gz'', ''a_traits-json.json'', ''a_ancestry-json.json''],
           [''S2_T1'', ''b.vcf.gz'', ''b_traits-json.json'', ''b_ancestry-json.json'']] ! 1)
        ''sample'' = Inr (Some ''S2_T1'')"
proof -
  let ?f = "[''sample'', ''vcf'', ''traits'', ''ancestry'']"
  let ?rows = "dict_reader ?f
        [[''S1'', ''a.vcf.gz'', ''a_traits-json.json'', ''a_ancestry-json.json''],
         [''S2'', ''b.vcf.gz'', ''b_traits-json.json'', ''b_ancestry-json.json'']]"
  let ?rows' = "dict_reader ?f
        [[''S1_T1'', ''a.vcf.gz'', ''a_traits-json.json'', ''a_ancestry-json.json''],
         [''S2_T1'', ''b.vcf.gz'', ''b_traits-json.json'', ''b_ancestry-json.json'']]"
  let ?c = "RowChecker\<lparr>seen := {Some ''S1'', Some ''S2''}, modified := ?rows\<rparr>"
  let ?c' = "RowChecker\<lparr>seen := {Some ''S1'', Some ''S2''}, modified := ?rows'\<rparr>"
  have h1: "validate_rows RowChecker 0 ?rows = Inr ?c"
    by code_simp
  have h2: "validate_unique_samples ?c = (None, ?c')"
    by code_simp
  have l: "0 < length ?rows" "1 < length ?rows"
    by (simp_all add: dict_reader_def)
  have g: "getitem (?rows ! 0) ''sample'' = Inr (Some ''S1'')"
    "getitem (?rows ! 1) ''sample'' = Inr (Some ''S2'')"
    by (simp_all add: dict_reader_def dict_row_def getitem_def)
  note t = renaming_only_appends_T1 [OF h1 h2, THEN conjunct2, THEN conjunct2, THEN conjunct2,
      THEN conjunct2, rule_format]
  from t [OF l(1), THEN conjunct1, rule_format, OF g(1)]
  have a: "getitem (?rows' ! 0) ''sample'' = Inr (Some ''S1_T1'')" by simp
  from t [OF l(2), THEN conjunct1, rule_format, OF g(2)]
  have b: "getitem (?rows' ! 1) ''sample'' = Inr (Some ''S2_T1'')" by simp
  from h1 h2 a b show ?thesis by (intro conjI)
qed

section \<open>Validation of one row\<close>



section \<open>The whole run\<close>

text \<open>
  C6. When the field names of the header do not include all of \<open>sample\<close>, \<open>vcf\<close>,
  \<open>traits\<close> and \<open>ancestry\<close>, the run logs a critical message that lists the required
  columns and the field names found, exits with status 1 and does not open the output
  file. When they do (further columns are allowed), the rows are validated: the first
  row on which validation raises decides the outcome, and when every row passes its
  checks all parsed rows are accepted by the checker, after which the run can only
  return, fail the uniqueness check or fail in the writer.
\<close>

theorem required_columns_gate:
  "(\<not> required_columns \<subseteq> set fieldnames \<longrightarrow>
      check_samplesheet (Table fieldnames records) =
        (Sys_exit 1
           [Lit ''The sample sheet **must** contain these column headers: '',
            Joined {''sample'', ''vcf'', ''traits'', ''ancestry''},
            Lit ''. It currently contains '',
            Repr fieldnames], None))
   \<and> (required_columns \<subseteq> set fieldnames \<longrightarrow>
        (\<forall>i e. validate_rows RowChecker 0 (dict_reader fieldnames records) = Inl (i, e) \<longrightarrow>
           check_samplesheet (Table fieldnames records) = (row_failure i e, None))
      \<and> ((\<forall>r\<in>set (dict_reader fieldnames records). validate_sample RowChecker r = None) \<longrightarrow>
           (\<exists>c. validate_rows RowChecker 0 (dict_reader fieldnames records) = Inr c
              \<and> modified c = dict_reader fieldnames records
              \<and> fst (check_samplesheet (Table fieldnames records)) \<in>
                  {Returned, Uncaught ValueError,
                   Uncaught (AssertionError ''The pair of sample name and VCF must be unique.'')})))"
proof (intro conjI impI allI)
  assume "\<not> required_columns \<subseteq> set fieldnames"
  then show "check_samplesheet (Table fieldnames records) =
        (Sys_exit 1
           [Lit ''The sample sheet **must** contain these column headers: '',
            Joined {''sample'', ''vcf'', ''traits'', ''ancestry''},
            Lit ''. It currently contains '',
            Repr fieldnames], None)"
    by (simp add: check_samplesheet_def) (simp add: required_columns_def)
next
  fix i e
  assume "required_columns \<subseteq> set fieldnames"
    and "validate_rows RowChecker 0 (dict_reader fieldnames records) = Inl (i, e)"
  then show "check_samplesheet (Table fieldnames records) = (row_failure i e, None)"
    by (simp add: check_table_unfold)
next
  let ?rows = "dict_reader fieldnames records"
  assume req: "required_columns \<subseteq> set fieldnames"
    and ok: "\<forall>r\<in>set ?rows. validate_sample RowChecker r = None"
  from ok have acc: "\<forall>r\<in>set ?rows. fst (validate_and_transform RowChecker r) = None"
    using parsed_accept_iff [OF req] by simp
  let ?c = "RowChecker\<lparr>seen := (\<lambda>r. cell r ''sample'') ` set ?rows, modified := ?rows\<rparr>"
  from validate_rows_all [OF acc, of 0]
  have v: "validate_rows RowChecker 0 ?rows = Inr ?c" by simp
  have "fst (check_samplesheet (Table fieldnames records)) \<in>
       {Returned, Uncaught ValueError,
        Uncaught (AssertionError ''The pair of sample name and VCF must be unique.'')}"
  proof (cases "distinct (map (\<lambda>r. cell r ''sample'') ?rows)")
    case False
    then have "card (seen ?c) \<noteq> length (modified ?c)"
      by (simp add: unique_iff_distinct)
    from validate_unique_samples_violated [OF this] v req show ?thesis
      by (simp add: check_table_unfold)
  next
    case True
    note u = validate_unique_samples_checked [OF acc True]
    obtain e out where w: "write_rows (list_insert 1 ''single_end'' fieldnames)
        (map (\<lambda>r. setitem r ''sample'' (Some (py_str (cell r ''sample'') @ ''_T1''))) ?rows)
        [list_insert 1 ''single_end'' fieldnames] = (e, out)"
      using write_rows_Some by blast
    show ?thesis
    proof (cases e)
      case None
      with w u v req show ?thesis by (simp add: check_table_unfold)
    next
      case (Some x)
      with w write_rows_exn have "x = ValueError" by blast
      with Some w u v req show ?thesis by (simp add: check_table_unfold)
    qed
  qed
  with v show "\<exists>c. validate_rows RowChecker 0 ?rows = Inr c \<and> modified c = ?rows
      \<and> fst (check_samplesheet (Table fieldnames records)) \<in>
                  {Returned, Uncaught ValueError,
                   Uncaught (AssertionError ''The pair of sample name and VCF must be unique.'')}"
    by simp
qed


theorem required_columns_gate_witness:
  "check_samplesheet (Table [''sample'', ''vcf'', ''traits''] [[''S1'', ''a.vcf.gz'', ''a_traits-json.json'']]) =
     (Sys_exit 1
        [Lit ''The sample sheet **must** contain these column headers: '',
         Joined {''sample'', ''vcf'', ''traits'', ''ancestry''},
         Lit ''. It currently contains '',
         Repr [''sample'', ''vcf'', ''traits'']], None)
   \<and> (\<exists>c. validate_rows RowChecker 0
          (dict_reader [''sample'', ''note'', ''vcf'', ''traits'', ''ancestry'']
             [[''S1'', ''first'', ''a.vcf.gz'', ''a_traits-json.json'', ''a_ancestry-json.json'']]) = Inr c
        \<and> modified c = dict_reader [''sample'', ''note'', ''vcf'', ''traits'', ''ancestry'']
             [[''S1'', ''first'', ''a.vcf.gz'', ''a_traits-json.json'', ''a_ancestry-json.json'']])"
proof -
  let ?f = "[''sample'', ''note'', ''vcf'', ''traits'', ''ancestry'']"
  let ?recs = "[[''S1'', ''first'', ''a.vcf.gz'', ''a_traits-json.json'', ''a_ancestry-json.json'']]"
  have no: "\<not> required_columns \<subseteq> set [''sample'', ''vcf'', ''traits'']"
    by (simp add: required_columns_def)
  have yes: "required_columns \<subseteq> set ?f"
    by (simp add: required_columns_def)
  have "validate_sample RowChecker (dict_row ?f (hd ?recs)) = None"
    by code_simp
  then have ok: "\<forall>r\<in>set (dict_reader ?f ?recs). validate_sample RowChecker r = None"
    by (simp add: dict_reader_def)
  from required_columns_gate [of "[''sample'', ''vcf'', ''traits'']"
      "[[''S1'', ''a.vcf.gz'', ''a_traits-json.json'']]"] no
    required_columns_gate [of ?f ?recs] yes ok
  show ?thesis by blast
qed

text \<open>
  C7, as the specification states it, fails when a record is shorter than the header:
  the missing cell is \<^verbatim>\<open>None\<close>, \<^verbatim>\<open>endswith\<close> raises an attribute error, the
  \<^verbatim>\<open>except AssertionError\<close> clause does not catch it, and the run ends without a
  message that names the line.
\<close>

theorem short_record_has_no_line_diagnostic:
  "validate_sample RowChecker
     (dict_row [''sample'', ''vcf'', ''traits'', ''ancestry''] [''S1'', ''S1.vcf.gz'']) =
     Some AttributeError
   \<and> check_samplesheet (Table [''sample'', ''vcf'', ''traits'', ''ancestry'']
        [[''S1'', ''S1.vcf.gz'']]) = (Uncaught AttributeError, None)"
  by code_simp

text \<open>
  C7, amended. Let the parsed row of index \<open>i\<close> (counting from 0) be the first on which
  \<^verbatim>\<open>_validate_sample\<close> raises. When it raises an assertion error (a suffix check
  failed), the run logs the message of that error followed by \<open>On line\<close> and the
  decimal number \<open>i + 2\<close>, and exits with status 1. Any other exception is not caught.
  Either way the process ends with status 1 and the output file is not opened.
\<close>

theorem row_failure_reports_line:
  assumes "required_columns \<subseteq> set fieldnames"
    and "i < length (dict_reader fieldnames records)"
    and "\<forall>j<i. validate_sample RowChecker (dict_reader fieldnames records ! j) = None"
    and "validate_sample RowChecker (dict_reader fieldnames records ! i) = Some e"
  shows "check_samplesheet (Table fieldnames records) =
           (case e of
              AssertionError m \<Rightarrow> Sys_exit 1 [Lit (m @ '' On line '' @ str_nat (i + 2) @ ''.'')]
            | _ \<Rightarrow> Uncaught e, None)
       \<and> exit_status (fst (check_samplesheet (Table fieldnames records))) = 1"
proof -
  let ?rows = "dict_reader fieldnames records"
  have split: "?rows = take i ?rows @ ?rows ! i # drop (Suc i) ?rows"
    using assms(2) by (rule id_take_nth_drop)
  have pre: "\<forall>r\<in>set (take i ?rows). fst (validate_and_transform RowChecker r) = None"
  proof
    fix r assume r: "r \<in> set (take i ?rows)"
    then obtain j where j: "j < i" "r = ?rows ! j"
      using assms(2) by (auto simp: in_set_conv_nth)
    from r have "r \<in> set ?rows" by (rule in_set_takeD)
    from parsed_accept_iff [OF assms(1) this] j assms(3)
    show "fst (validate_and_transform RowChecker r) = None" by simp
  qed
  have "?rows ! i \<in> set ?rows" using assms(2) by simp
  from parsed_accept_iff [OF assms(1) this] assms(4)
  have bad: "fst (validate_and_transform RowChecker (?rows ! i)) = Some e" by simp
  from validate_rows_first [OF pre bad, of 0 "drop (Suc i) ?rows"] split assms(2)
  have "validate_rows RowChecker 0 ?rows = Inl (i, e)"
    by simp
  with assms(1) have "check_samplesheet (Table fieldnames records) = (row_failure i e, None)"
    by (simp add: check_samplesheet_def)
  then show ?thesis
    by (cases e) simp_all
qed

theorem row_failure_reports_line_witness:
  "check_samplesheet (Table [''sample'', ''vcf'', ''traits'', ''ancestry'']
      [[''S1'', ''a.vcf.gz'', ''a_traits-json.json'', ''a_ancestry-json.json''],
       [''S2'', ''b.vcf'', ''b_traits-json.json'', ''b_ancestry-json.json'']]) =
    (Sys_exit 1 [Lit ''Unexpected VCF file extension: b.vcf. The valid VCF extension should be: vcf.gz. On line 3.''],
     None)"
proof -
  let ?f = "[''sample'', ''vcf'', ''traits'', ''ancestry'']"
  let ?recs = "[[''S1'', ''a.vcf.gz'', ''a_traits-json.json'', ''a_ancestry-json.json''],
       [''S2'', ''b.vcf'', ''b_traits-json.json'', ''b_ancestry-json.json'']]"
  have h1: "required_columns \<subseteq> set ?f"
    by (simp add: required_columns_def)
  have h2: "1 < length (dict_reader ?f ?recs)"
    by (simp add: dict_reader_def)
  have h0: "validate_sample RowChecker (dict_reader ?f ?recs ! 0) = None"
    by code_simp
  have h3: "\<forall>j<1. validate_sample RowChecker (dict_reader ?f ?recs ! j) = None"
    using h0 by simp
  have h4: "validate_sample RowChecker (dict_reader ?f ?recs ! 1) =
      Some (AssertionError ''Unexpected VCF file extension: b.vcf. The valid VCF extension should be: vcf.gz.'')"
    by code_simp
  have s: "str_nat (1 + 2) = ''3''"
    by code_simp
  from row_failure_reports_line [OF h1 h2 h3 h4] s show ?thesis by simp
qed

text \<open>
  C8. The output file is opened for writing exactly when a header was detected, the
  required columns are present, every parsed row passes its three checks and the sample
  values are pairwise distinct. So whenever one of these validation steps fails, for any
  input, the run ends without touching the output file.
\<close>

theorem output_opened_only_after_validation:
  "snd (check_samplesheet inp) \<noteq> None \<longleftrightarrow>
     (\<exists>f recs. inp = Table f recs \<and> required_columns \<subseteq> set f
        \<and> (\<forall>r\<in>set (dict_reader f recs). validate_sample RowChecker r = None)
        \<and> distinct (map (\<lambda>r. cell r ''sample'') (dict_reader f recs)))"
proof (cases inp)
  case Undetected
  then show ?thesis by (simp add: check_samplesheet_def)
next
  case Headerless
  then show ?thesis by (simp add: check_samplesheet_def)
next
  case (Table f recs)
  let ?rows = "dict_reader f recs"
  show ?thesis
  proof (cases "required_columns \<subseteq> set f")
    case False
    with Table show ?thesis by (simp add: check_samplesheet_def)
  next
    case True
    note unfold = check_table_unfold [OF True, of recs]
    show ?thesis
    proof (cases "validate_rows RowChecker 0 ?rows")
      case (Inl p)
      obtain j e where p: "p = (j, e)" by (cases p)
      from validate_rows_Inl [OF Inl [unfolded p]]
      obtain pre r post where d: "?rows = pre @ r # post"
        and re: "fst (validate_and_transform RowChecker r) = Some e"
        by blast
      from d have "r \<in> set ?rows" by simp
      note r = this re
      from parsed_accept_iff [OF True r(1)] r(2)
      have "validate_sample RowChecker r = Some e" by simp
      then have "validate_sample RowChecker r \<noteq> None" by simp
      with r(1) have "\<not> (\<forall>r\<in>set ?rows. validate_sample RowChecker r = None)" by auto
      moreover from unfold Inl p have "snd (check_samplesheet (Table f recs)) = None" by simp
      ultimately show ?thesis using Table by simp
    next
      case (Inr c)
      note c = checked_rows [OF Inr]
      from c(2) have valid: "\<forall>r\<in>set ?rows. validate_sample RowChecker r = None"
        using parsed_accept_iff [OF True] by simp
      show ?thesis
      proof (cases "distinct (map (\<lambda>r. cell r ''sample'') ?rows)")
        case False
        then have "card (seen c) \<noteq> length (modified c)"
          using c(1) by (simp add: unique_iff_distinct)
        from validate_unique_samples_violated [OF this] unfold Inr
        have "snd (check_samplesheet (Table f recs)) = None" by simp
        with False Table show ?thesis by simp
      next
        case dist: True
        from validate_unique_samples_checked [OF c(2) dist] c(1)
        obtain c' where c': "validate_unique_samples c = (None, c')" by simp
        obtain e out where w: "write_rows (list_insert 1 ''single_end'' f) (modified c')
                  [list_insert 1 ''single_end'' f] = (e, out)"
          using write_rows_Some by blast
        from unfold Inr c' w have "snd (check_samplesheet (Table f recs)) = Some out"
          by (cases e) simp_all
        with dist valid True Table show ?thesis by simp
      qed
    qed
  qed
qed

theorem output_opened_only_after_validation_witness:
  "snd (check_samplesheet (Table [''sample'', ''vcf'', ''traits'', ''ancestry'']
      [[''S1'', ''a.vcf.gz'', ''a_traits-json.json'', ''a_ancestry-json.json''],
       [''S2'', ''b.vcf.gz'', ''b_traits.json'', ''b_ancestry-json.json'']])) = None"
proof -
  let ?f = "[''sample'', ''vcf'', ''traits'', ''ancestry'']"
  let ?recs = "[[''S1'', ''a.vcf.gz'', ''a_traits-json.json'', ''a_ancestry-json.json''],
       [''S2'', ''b.vcf.gz'', ''b_traits.json'', ''b_ancestry-json.json'']]"
  have bad: "validate_sample RowChecker
      (dict_row ?f [''S2'', ''b.vcf.gz'', ''b_traits.json'', ''b_ancestry-json.json'']) \<noteq> None"
    by code_simp
  have "dict_row ?f [''S2'', ''b.vcf.gz'', ''b_traits.json'', ''b_ancestry-json.json'']
      \<in> set (dict_reader ?f ?recs)"
    by (simp add: dict_reader_def)
  with bad have "\<not> (\<forall>r\<in>set (dict_reader ?f ?recs). validate_sample RowChecker r = None)"
    by (auto simp del: set_simps)
  with output_opened_only_after_validation [of "Table ?f ?recs"] show ?thesis
    by blast
qed

section \<open>The diagnostics of the suffix checks\<close>

lemma check_extension_cases:
  assumes "getitem r k = Inr c"
  shows "check_extension r k suf msg =
     (case c of None \<Rightarrow> Some AttributeError
      | Some v \<Rightarrow> if endswith v suf then None else Some (AssertionError (msg v)))"
  using assms by (simp add: check_extension_def split: option.splits)

lemma validate_rows_stop:
  "validate_sample RowChecker r = Some e \<Longrightarrow> validate_rows RowChecker i (r # rs) = Inl (i, e)"
  by (simp add: validate_and_transform_def)

lemma exit_status_row_failure: "exit_status (row_failure i e) = 1"
  by (cases e) simp_all

text \<open>
  C4, as the specification states it, fails on the code in two places. The message
  raised for a bad \<open>vcf\<close> value names the extension as \<open>vcf.gz\<close>: the checked suffix
  \<open>.vcf.gz\<close> does not occur in it. And a record shorter than the header leaves a cell
  \<^verbatim>\<open>None\<close>, on which \<^verbatim>\<open>endswith\<close> raises an attribute error that carries no such
  diagnostic.
\<close>

theorem vcf_diagnostic_lacks_checked_suffix:
  "validate_sample RowChecker
     (dict_row [''sample'', ''vcf'', ''traits'', ''ancestry'']
        [''S1'', ''S1.vcf'', ''S1_traits-json.json'', ''S1_ancestry-json.json'']) =
     Some (AssertionError
       ''Unexpected VCF file extension: S1.vcf. The valid VCF extension should be: vcf.gz.'')
   \<and> \<not> sublist ''.vcf.gz''
       ''Unexpected VCF file extension: S1.vcf. The valid VCF extension should be: vcf.gz.''
   \<and> validate_sample RowChecker
        (dict_row [''sample'', ''vcf'', ''traits'', ''ancestry''] [''S1'']) =
       Some AttributeError"
  by code_simp

text \<open>
  C4, amended. For a row that has the three cells: it passes \<^verbatim>\<open>_validate_sample\<close>
  exactly when the cells are strings and \<open>vcf\<close> ends with \<open>.vcf.gz\<close>, \<open>traits\<close> with
  \<open>_traits-json.json\<close> and \<open>ancestry\<close> with \<open>_ancestry-json.json\<close>. The first string
  cell that fails its check raises an assertion error whose message holds the offending
  value and the expected extension, written \<open>vcf.gz\<close> for the first check and as the
  checked suffix for the other two; a \<open>vcf\<close> cell that is \<^verbatim>\<open>None\<close> raises an
  attribute error. Whatever is raised ends the loop over the rows at this row, and the
  process ends with status 1.
\<close>

theorem suffix_checks_decide_acceptance:
  assumes "getitem r ''vcf'' = Inr cv"
    and "getitem r ''traits'' = Inr ct"
    and "getitem r ''ancestry'' = Inr ca"
  shows "(validate_sample RowChecker r = None \<longleftrightarrow>
            (\<exists>v t a. cv = Some v \<and> ct = Some t \<and> ca = Some a
               \<and> endswith v ''.vcf.gz'' \<and> endswith t ''_traits-json.json''
               \<and> endswith a ''_ancestry-json.json''))
       \<and> (\<forall>v. cv = Some v \<and> \<not> endswith v ''.vcf.gz'' \<longrightarrow>
             validate_sample RowChecker r = Some (AssertionError
               (''Unexpected VCF file extension: '' @ v @
                ''. The valid VCF extension should be: vcf.gz.'')))
       \<and> (\<forall>v t. cv = Some v \<and> endswith v ''.vcf.gz'' \<and> ct = Some t
               \<and> \<not> endswith t ''_traits-json.json'' \<longrightarrow>
             validate_sample RowChecker r = Some (AssertionError
               (''Unexpected traits file extension: '' @ t @
                ''. The valid VCF extension should be: _traits-json.json.'')))
       \<and> (\<forall>v t a. cv = Some v \<and> endswith v ''.vcf.gz'' \<and> ct = Some t
               \<and> endswith t ''_traits-json.json'' \<and> ca = Some a
               \<and> \<not> endswith a ''_ancestry-json.json'' \<longrightarrow>
             validate_sample RowChecker r = Some (AssertionError
               (''Unexpected ancestry file extension: '' @ a @
                ''. The valid VCF extension should be: _ancestry-json.json.'')))
       \<and> (cv = None \<longrightarrow> validate_sample RowChecker r = Some AttributeError)
       \<and> (\<forall>e i rs. validate_sample RowChecker r = Some e \<longrightarrow>
             validate_rows RowChecker i (r # rs) = Inl (i, e)
             \<and> exit_status (row_failure i e) = 1)"
proof -
  have v: "validate_sample RowChecker r =
     (case cv of None \<Rightarrow> Some AttributeError
      | Some v \<Rightarrow> if \<not> endswith v ''.vcf.gz'' then Some (AssertionError (vcf_msg v))
        else (case ct of None \<Rightarrow> Some AttributeError
      | Some t \<Rightarrow> if \<not> endswith t ''_traits-json.json'' then Some (AssertionError (traits_msg t))
        else (case ca of None \<Rightarrow> Some AttributeError
      | Some a \<Rightarrow> if \<not> endswith a ''_ancestry-json.json''
          then Some (AssertionError (ancestry_msg a)) else None)))"
    by (simp add: validate_sample_def check_extension_cases [OF assms(1)]
        check_extension_cases [OF assms(2)] check_extension_cases [OF assms(3)]
        split: option.splits)
  have 1: "validate_sample RowChecker r = None \<longleftrightarrow>
            (\<exists>v t a. cv = Some v \<and> ct = Some t \<and> ca = Some a
               \<and> endswith v ''.vcf.gz'' \<and> endswith t ''_traits-json.json''
               \<and> endswith a ''_ancestry-json.json'')"
    unfolding v by (auto split: option.splits)
  have 2: "\<forall>v. cv = Some v \<and> \<not> endswith v ''.vcf.gz'' \<longrightarrow>
             validate_sample RowChecker r = Some (AssertionError
               (''Unexpected VCF file extension: '' @ v @
                ''. The valid VCF extension should be: vcf.gz.''))"
    unfolding v by (simp add: vcf_msg_def)
  have 3: "\<forall>v t. cv = Some v \<and> endswith v ''.vcf.gz'' \<and> ct = Some t
               \<and> \<not> endswith t ''_traits-json.json'' \<longrightarrow>
             validate_sample RowChecker r = Some (AssertionError
               (''Unexpected traits file extension: '' @ t @
                ''. The valid VCF extension should be: _traits-json.json.''))"
    unfolding v by (simp add: traits_msg_def)
  have 4: "\<forall>v t a. cv = Some v \<and> endswith v ''.vcf.gz'' \<and> ct = Some t
               \<and> endswith t ''_traits-json.json'' \<and> ca = Some a
               \<and> \<not> endswith a ''_ancestry-json.json'' \<longrightarrow>
             validate_sample RowChecker r = Some (AssertionError
               (''Unexpected ancestry file extension: '' @ a @
                ''. The valid VCF extension should be: _ancestry-json.json.''))"
    unfolding v by (simp add: ancestry_msg_def)
  have 5: "cv = None \<longrightarrow> validate_sample RowChecker r = Some AttributeError"
    unfolding v by simp
  have 6: "\<forall>e i rs. validate_sample RowChecker r = Some e \<longrightarrow>
             validate_rows RowChecker i (r # rs) = Inl (i, e)
             \<and> exit_status (row_failure i e) = 1"
    using validate_rows_stop exit_status_row_failure
    by (simp del: validate_rows.simps)
  from 1 2 3 4 5 6 show ?thesis by (intro conjI)
qed

theorem suffix_checks_decide_acceptance_witness:
  "validate_sample RowChecker
     (dict_row [''sample'', ''vcf'', ''traits'', ''ancestry'']
        [''S1'', ''S1.vcf.gz'', ''S1_traits.json'', ''S1_ancestry-json.json'']) =
     Some (AssertionError
       ''Unexpected traits file extension: S1_traits.json. The valid VCF extension should be: _traits-json.json.'')
   \<and> validate_sample RowChecker
     (dict_row [''sample'', ''vcf'', ''traits'', ''ancestry'']
        [''S1'', ''S1.vcf.gz'', ''S1_traits-json.json'', ''S1_ancestry-json.json'']) = None"
proof -
  let ?f = "[''sample'', ''vcf'', ''traits'', ''ancestry'']"
  let ?bad = "dict_row ?f [''S1'', ''S1.vcf.gz'', ''S1_traits.json'', ''S1_ancestry-json.json'']"
  let ?good = "dict_row ?f [''S1'', ''S1.vcf.gz'', ''S1_traits-json.json'', ''S1_ancestry-json.json'']"
  have b: "getitem ?bad ''vcf'' = Inr (Some ''S1.vcf.gz'')"
    "getitem ?bad ''traits'' = Inr (Some ''S1_traits.json'')"
    "getitem ?bad ''ancestry'' = Inr (Some ''S1_ancestry-json.json'')"
    by (simp_all add: getitem_def dict_row_def)
  have g: "getitem ?good ''vcf'' = Inr (Some ''S1.vcf.gz'')"
    "getitem ?good ''traits'' = Inr (Some ''S1_traits-json.json'')"
    "getitem ?good ''ancestry'' = Inr (Some ''S1_ancestry-json.json'')"
    by (simp_all add: getitem_def dict_row_def)
  have e: "endswith ''S1.vcf.gz'' ''.vcf.gz''"
    "\<not> endswith ''S1_traits.json'' ''_traits-json.json''"
    "endswith ''S1_traits-json.json'' ''_traits-json.json''"
    "endswith ''S1_ancestry-json.json'' ''_ancestry-json.json''"
    by (simp_all add: endswith_def suffix_to_prefix)
  note bad = suffix_checks_decide_acceptance [OF b, THEN conjunct2, THEN conjunct2,
      THEN conjunct1, rule_format, of "''S1.vcf.gz''" "''S1_traits.json''"]
  from bad e(1,2)
  have 1: "validate_sample RowChecker ?bad = Some (AssertionError
       (''Unexpected traits file extension: '' @ ''S1_traits.json'' @
                ''. The valid VCF extension should be: _traits-json.json.''))"
    by simp
  note good = suffix_checks_decide_acceptance [OF g, THEN conjunct1]
  from good e(1,3,4)
  have 2: "validate_sample RowChecker ?good = None"
    by simp
  from 1 2 show ?thesis by simp
qed

section \<open>Running the checker on its own result\<close>

lemma validate_and_rename_Inr:
  assumes "validate_and_rename rows = Inr rows'"
  shows "(\<forall>r\<in>set rows. fst (validate_and_transform RowChecker r) = None)
     \<and> distinct (map (\<lambda>r. cell r ''sample'') rows)
     \<and> rows' = map (\<lambda>r. setitem r ''sample'' (Some (py_str (cell r ''sample'') @ ''_T1''))) rows"
proof -
  from assms obtain c c' where v: "validate_rows RowChecker 0 rows = Inr c"
    and u: "validate_unique_samples c = (None, c')" and m: "rows' = modified c'"
    by (auto simp: validate_and_rename_def split: sum.splits option.splits prod.splits)
  note c = checked_rows [OF v]
  from validate_unique_samples_None [OF u] c(1)
  have dist: "distinct (map (\<lambda>r. cell r ''sample'') rows)"
    by (simp add: unique_iff_distinct)
  let ?out = "map (\<lambda>r. setitem r ''sample'' (Some (py_str (cell r ''sample'') @ ''_T1''))) rows"
  from validate_unique_samples_checked [OF c(2) dist]
  have "validate_unique_samples c =
      (None, RowChecker\<lparr>seen := (\<lambda>r. cell r ''sample'') ` set rows, modified := ?out\<rparr>)"
    unfolding c(1) .
  with u have "c' = RowChecker\<lparr>seen := (\<lambda>r. cell r ''sample'') ` set rows, modified := ?out\<rparr>"
    by simp
  with m have "rows' = ?out"
    by simp
  with c(2) dist show ?thesis by simp
qed

lemma validate_and_rename_ok:
  assumes "\<forall>r\<in>set rows. fst (validate_and_transform RowChecker r) = None"
    and "distinct (map (\<lambda>r. cell r ''sample'') rows)"
  shows "validate_and_rename rows =
     Inr (map (\<lambda>r. setitem r ''sample'' (Some (py_str (cell r ''sample'') @ ''_T1''))) rows)"
  using validate_rows_all [OF assms(1), of 0] validate_unique_samples_checked [OF assms]
  by (simp add: validate_and_rename_def)

lemma check_samplesheet_renames:
  "required_columns \<subseteq> set f \<Longrightarrow> validate_and_rename (dict_reader f recs) = Inr rows' \<Longrightarrow>
   check_samplesheet (Table f recs) =
     (case write_rows (list_insert 1 ''single_end'' f) rows' [list_insert 1 ''single_end'' f] of
        (Some e, out) \<Rightarrow> (Uncaught e, Some out)
      | (None, out) \<Rightarrow> (Returned, Some out))"
  by (auto simp: check_table_unfold validate_and_rename_def
      split: sum.splits prod.splits option.splits)

text \<open>
  C2, as the specification states it, fails: the renaming is not idempotent. A sheet
  with the one sample \<open>S1\<close> comes out with \<open>S1_T1\<close>; that sheet again (the inserted
  \<open>single_end\<close> column dropped) comes out with \<open>S1_T1_T1\<close>.
\<close>

theorem rerun_not_idempotent:
  "validate_and_rename
     (dict_reader [''sample'', ''vcf'', ''traits'', ''ancestry'']
        [[''S1'', ''S1.vcf.gz'', ''S1_traits-json.json'', ''S1_ancestry-json.json'']]) =
     Inr (dict_reader [''sample'', ''vcf'', ''traits'', ''ancestry'']
        [[''S1_T1'', ''S1.vcf.gz'', ''S1_traits-json.json'', ''S1_ancestry-json.json'']])
   \<and> validate_and_rename
     (dict_reader [''sample'', ''vcf'', ''traits'', ''ancestry'']
        [[''S1_T1'', ''S1.vcf.gz'', ''S1_traits-json.json'', ''S1_ancestry-json.json'']]) =
     Inr (dict_reader [''sample'', ''vcf'', ''traits'', ''ancestry'']
        [[''S1_T1_T1'', ''S1.vcf.gz'', ''S1_traits-json.json'', ''S1_ancestry-json.json'']])
   \<and> check_samplesheet (Table [''sample'', ''vcf'', ''traits'', ''ancestry'']
        [[''S1'', ''S1.vcf.gz'', ''S1_traits-json.json'', ''S1_ancestry-json.json'']]) =
       (Returned, Some [[''sample'', ''single_end'', ''vcf'', ''traits'', ''ancestry''],
          [''S1_T1'', [], ''S1.vcf.gz'', ''S1_traits-json.json'', ''S1_ancestry-json.json'']])
   \<and> check_samplesheet (Table [''sample'', ''vcf'', ''traits'', ''ancestry'']
        [[''S1_T1'', ''S1.vcf.gz'', ''S1_traits-json.json'', ''S1_ancestry-json.json'']]) =
       (Returned, Some [[''sample'', ''single_end'', ''vcf'', ''traits'', ''ancestry''],
          [''S1_T1_T1'', [], ''S1.vcf.gz'', ''S1_traits-json.json'', ''S1_ancestry-json.json'']])"
  by code_simp

text \<open>
  C2, amended. When the rows pass validation and renaming and every sample cell is a
  string, the result passes validation and renaming again. Reading
  \<^verbatim>\<open>row["sample"]\<close> of a row whose sample was the string \<open>s\<close> gives \<open>s_T1\<close> after
  the first pass and \<open>s_T1_T1\<close> after the second; every other cell reads after the
  second pass as it did at the start.
\<close>

theorem rerun_appends_suffix_again:
  assumes "validate_and_rename rows = Inr rows'"
    and "\<forall>r\<in>set rows. getitem r ''sample'' \<noteq> Inr None"
  shows "rows' = map (\<lambda>r. setitem r ''sample'' (Some (py_str (cell r ''sample'') @ ''_T1''))) rows
       \<and> validate_and_rename rows' =
           Inr (map (\<lambda>r. setitem r ''sample'' (Some (py_str (cell r ''sample'') @ ''_T1_T1''))) rows)
       \<and> (\<exists>rows''. validate_and_rename rows' = Inr rows''
             \<and> length rows' = length rows \<and> length rows'' = length rows
             \<and> (\<forall>i<length rows. \<exists>s.
                   getitem (rows ! i) ''sample'' = Inr (Some s)
                 \<and> getitem (rows' ! i) ''sample'' = Inr (Some (s @ ''_T1''))
                 \<and> getitem (rows'' ! i) ''sample'' = Inr (Some (s @ ''_T1_T1''))
                 \<and> (\<forall>k. k \<noteq> ''sample'' \<longrightarrow> getitem (rows'' ! i) k = getitem (rows ! i) k)
                 \<and> rest (rows'' ! i) = rest (rows ! i)))"
proof -
  let ?ren = "\<lambda>r. setitem r ''sample'' (Some (py_str (cell r ''sample'') @ ''_T1''))"
  let ?ren2 = "\<lambda>r. setitem r ''sample'' (Some (py_str (cell r ''sample'') @ ''_T1_T1''))"
  note first = validate_and_rename_Inr [OF assms(1)]
  from first have acc: "\<forall>r\<in>set rows. fst (validate_and_transform RowChecker r) = None"
    and dist: "distinct (map (\<lambda>r. cell r ''sample'') rows)"
    and out: "rows' = map ?ren rows"
    by simp_all
  have str: "\<exists>s. getitem r ''sample'' = Inr (Some s) \<and> cell r ''sample'' = Some s"
    if "r \<in> set rows" for r
  proof -
    from that acc accepted_getitem [of RowChecker r]
    have g: "getitem r ''sample'' = Inr (cell r ''sample'')" by simp
    with that assms(2) have "cell r ''sample'' \<noteq> None" by auto
    with g show ?thesis by auto
  qed
  from acc have acc': "\<forall>r\<in>set rows'. fst (validate_and_transform RowChecker r) = None"
    unfolding out by (simp add: accepted_renamed)
  have cells': "map (\<lambda>r. cell r ''sample'') rows' =
      map (\<lambda>s. Some (py_str s @ ''_T1'')) (map (\<lambda>r. cell r ''sample'') rows)"
    unfolding out by (simp add: cell_setitem_same)
  have "inj_on (\<lambda>s. Some (py_str s @ ''_T1'')) (set (map (\<lambda>r. cell r ''sample'') rows))"
  proof (rule inj_onI)
    fix x y
    assume x: "x \<in> set (map (\<lambda>r. cell r ''sample'') rows)"
      and y: "y \<in> set (map (\<lambda>r. cell r ''sample'') rows)"
      and eq: "Some (py_str x @ ''_T1'') = Some (py_str y @ ''_T1'')"
    from x str obtain a where a: "x = Some a" by auto
    from y str obtain b where b: "y = Some b" by auto
    from eq a b show "x = y" by simp
  qed
  with dist have dist': "distinct (map (\<lambda>r. cell r ''sample'') rows')"
    unfolding cells' by (simp only: distinct_map)
  from validate_and_rename_ok [OF acc' dist']
  have "validate_and_rename rows' = Inr (map ?ren rows')" .
  also have "map ?ren rows' = map ?ren2 rows"
    unfolding out by (simp add: cell_setitem_same setitem_setitem)
  finally have second: "validate_and_rename rows' = Inr (map ?ren2 rows)" .
  have cellwise: "\<forall>i<length rows. \<exists>s.
                   getitem (rows ! i) ''sample'' = Inr (Some s)
                 \<and> getitem (rows' ! i) ''sample'' = Inr (Some (s @ ''_T1''))
                 \<and> getitem (map ?ren2 rows ! i) ''sample'' = Inr (Some (s @ ''_T1_T1''))
                 \<and> (\<forall>k. k \<noteq> ''sample'' \<longrightarrow> getitem (map ?ren2 rows ! i) k = getitem (rows ! i) k)
                 \<and> rest (map ?ren2 rows ! i) = rest (rows ! i)"
  proof (intro allI impI)
    fix i assume i: "i < length rows"
    then have "rows ! i \<in> set rows" by simp
    from str [OF this] obtain s where s: "getitem (rows ! i) ''sample'' = Inr (Some s)"
      "cell (rows ! i) ''sample'' = Some s" by blast
    from i out s have 1: "getitem (rows' ! i) ''sample'' = Inr (Some (s @ ''_T1''))"
      by (simp add: getitem_setitem_same)
    from i s have 2: "getitem (map ?ren2 rows ! i) ''sample'' = Inr (Some (s @ ''_T1_T1''))"
      by (simp add: getitem_setitem_same)
    from i have 3: "\<forall>k. k \<noteq> ''sample'' \<longrightarrow> getitem (map ?ren2 rows ! i) k = getitem (rows ! i) k"
      by (simp add: getitem_setitem_other)
    from i have 4: "rest (map ?ren2 rows ! i) = rest (rows ! i)"
      by (simp add: rest_setitem)
    from s(1) 1 2 3 4
    show "\<exists>s. getitem (rows ! i) ''sample'' = Inr (Some s)
                 \<and> getitem (rows' ! i) ''sample'' = Inr (Some (s @ ''_T1''))
                 \<and> getitem (map ?ren2 rows ! i) ''sample'' = Inr (Some (s @ ''_T1_T1''))
                 \<and> (\<forall>k. k \<noteq> ''sample'' \<longrightarrow> getitem (map ?ren2 rows ! i) k = getitem (rows ! i) k)
                 \<and> rest (map ?ren2 rows ! i) = rest (rows ! i)"
      by blast
  qed
  from out have len: "length rows' = length rows" by simp
  have "\<exists>rows''. validate_and_rename rows' = Inr rows''
             \<and> length rows' = length rows \<and> length rows'' = length rows
             \<and> (\<forall>i<length rows. \<exists>s.
                   getitem (rows ! i) ''sample'' = Inr (Some s)
                 \<and> getitem (rows' ! i) ''sample'' = Inr (Some (s @ ''_T1''))
                 \<and> getitem (rows'' ! i) ''sample'' = Inr (Some (s @ ''_T1_T1''))
                 \<and> (\<forall>k. k \<noteq> ''sample'' \<longrightarrow> getitem (rows'' ! i) k = getitem (rows ! i) k)
                 \<and> rest (rows'' ! i) = rest (rows ! i))"
    using second len cellwise by (intro exI [of _ "map ?ren2 rows"] conjI) simp_all
  with out second show ?thesis by (intro conjI)
qed

theorem rerun_appends_suffix_again_witness:
  "validate_and_rename
     (dict_reader [''sample'', ''vcf'', ''traits'', ''ancestry'']
        [[''S1'', ''a.vcf.gz'', ''a_traits-json.json'', ''a_ancestry-json.json''],
         [''S2'', ''b.vcf.gz'', ''b_traits-json.json'', ''b_ancestry-json.json'']]) =
     Inr (dict_reader [''sample'', ''vcf'', ''traits'', ''ancestry'']
        [[''S1_T1'', ''a.vcf.gz'', ''a_traits-json.json'', ''a_ancestry-json.json''],
         [''S2_T1'', ''b.vcf.gz'', ''b_traits-json.json'', ''b_ancestry-json.json'']])
   \<and> validate_and_rename
     (dict_reader [''sample'', ''vcf'', ''traits'', ''ancestry'']
        [[''S1_T1'', ''a.vcf.gz'', ''a_traits-json.json'', ''a_ancestry-json.json''],
         [''S2_T1'', ''b.vcf.gz'', ''b_traits-json.json'', ''b_ancestry-json.json'']]) =
     Inr (dict_reader [''sample'', ''vcf'', ''traits'', ''ancestry'']
        [[''S1_T1_T1'', ''a.vcf.gz'', ''a_traits-json.json'', ''a_ancestry-json.json''],
         [''S2_T1_T1'', ''b.vcf.gz'', ''b_traits-json.json'', ''b_ancestry-json.json'']])"
proof -
  let ?f = "[''sample'', ''vcf'', ''traits'', ''ancestry'']"
  let ?rows = "dict_reader ?f
        [[''S1'', ''a.vcf.gz'', ''a_traits-json.json'', ''a_ancestry-json.json''],
         [''S2'', ''b.vcf.gz'', ''b_traits-json.json'', ''b_ancestry-json.json'']]"
  let ?rows' = "dict_reader ?f
        [[''S1_T1'', ''a.vcf.gz'', ''a_traits-json.json'', ''a_ancestry-json.json''],
         [''S2_T1'', ''b.vcf.gz'', ''b_traits-json.json'', ''b_ancestry-json.json'']]"
  let ?rows'' = "dict_reader ?f
        [[''S1_T1_T1'', ''a.vcf.gz'', ''a_traits-json.json'', ''a_ancestry-json.json''],
         [''S2_T1_T1'', ''b.vcf.gz'', ''b_traits-json.json'', ''b_ancestry-json.json'']]"
  have h1: "validate_and_rename ?rows = Inr ?rows'"
    by code_simp
  have h2: "\<forall>r\<in>set ?rows. getitem r ''sample'' \<noteq> Inr None"
    by (simp add: dict_reader_def dict_row_def getitem_def)
  have e: "map (\<lambda>r. setitem r ''sample'' (Some (py_str (cell r ''sample'') @ ''_T1_T1''))) ?rows = ?rows''"
    by code_simp
  from rerun_appends_suffix_again [OF h1 h2, THEN conjunct2, THEN conjunct1]
  have "validate_and_rename ?rows' = Inr ?rows''"
    by (simp only: e)
  with h1 show ?thesis by (intro conjI)
qed

section \<open>The shape of the output\<close>

lemma update_fresh: "k \<notin> fst ` set al \<Longrightarrow> AList.update k v al = al @ [(k, v)]"
  by (induction al) auto

lemma fold_update_fresh:
  "distinct (map fst kvs) \<Longrightarrow> fst ` set kvs \<inter> fst ` set d = {} \<Longrightarrow>
   fold (\<lambda>(k, v). AList.update k (g v)) kvs d = d @ map (\<lambda>(k, v). (k, g v)) kvs"
proof (induction kvs arbitrary: d)
  case Nil
  then show ?case by simp
next
  case (Cons p kvs)
  obtain k v where p: "p = (k, v)" by (cases p)
  from Cons.prems p have fresh: "k \<notin> fst ` set d" by auto
  from Cons.prems p have d: "distinct (map fst kvs)" and k: "k \<notin> fst ` set kvs" by auto
  from Cons.prems k have "fst ` set kvs \<inter> fst ` set (d @ [(k, g v)]) = {}" by auto
  from Cons.IH [OF d this] p fresh show ?case
    by (simp add: update_fresh)
qed

lemma fold_update_const_fresh:
  "distinct ks \<Longrightarrow> set ks \<inter> fst ` set d = {} \<Longrightarrow>
   fold (\<lambda>k. AList.update k v) ks d = d @ map (\<lambda>k. (k, v)) ks"
proof (induction ks arbitrary: d)
  case Nil
  then show ?case by simp
next
  case (Cons k ks)
  from Cons.prems have fresh: "k \<notin> fst ` set d" by auto
  from Cons.prems have "set ks \<inter> fst ` set (d @ [(k, v)]) = {}" by auto
  with Cons.IH [of "d @ [(k, v)]"] Cons.prems fresh show ?case
    by (simp add: update_fresh)
qed

lemma map_pair_const: "map (\<lambda>k. (k, v)) ks = zip ks (replicate (length ks) v)"
  by (induction ks) auto

lemma zip_take_left: "zip xs ys = zip (take (length ys) xs) ys"
proof (induction xs arbitrary: ys)
  case Nil
  then show ?case by simp
next
  case (Cons x xs)
  then show ?case by (cases ys) simp_all
qed

lemma cells_dict_row:
  assumes "distinct f" and "length l \<le> length f"
  shows "cells (dict_row f l) = zip f (map Some l @ replicate (length f - length l) None)"
    and "rest (dict_row f l) = None"
proof -
  let ?n = "length l"
  let ?d = "fold (\<lambda>(k, v). AList.update k (Some v)) (zip f l) []"
  have "map fst (zip f l) = take ?n f"
    using assms(2) by (simp add: map_fst_zip_take min_def)
  with assms(1) have "distinct (map fst (zip f l))" by simp
  from fold_update_fresh [OF this, of "[]" Some]
  have "?d = map (\<lambda>(k, v). (k, Some v)) (zip f l)" by simp
  also have "\<dots> = zip f (map Some l)" by (simp add: zip_map2)
  also have "\<dots> = zip (take ?n f) (map Some l)"
    using zip_take_left [of f "map Some l"] by simp
  finally have d: "?d = zip (take ?n f) (map Some l)" .
  show "rest (dict_row f l) = None"
    using assms(2) by (simp add: dict_row_def Let_def)
  show "cells (dict_row f l) = zip f (map Some l @ replicate (length f - length l) None)"
  proof (cases "?n < length f")
    case True
    have keys: "fst ` set ?d = set (take ?n f)"
      unfolding d using assms(2) by (simp add: fst_set_zip)
    have "set (drop ?n f) \<inter> set (take ?n f) = {}"
      using assms(1) by (metis append_take_drop_id distinct_append inf_commute)
    with keys have disj: "set (drop ?n f) \<inter> fst ` set ?d = {}" by simp
    have dd: "distinct (drop ?n f)" using assms(1) by simp
    from True have "cells (dict_row f l) = fold (\<lambda>k. AList.update k None) (drop ?n f) ?d"
      by (simp add: dict_row_def Let_def)
    also have "\<dots> = ?d @ map (\<lambda>k. (k, None)) (drop ?n f)"
      by (rule fold_update_const_fresh [OF dd disj])
    also have "\<dots> = zip (take ?n f) (map Some l) @ zip (drop ?n f) (replicate (length f - ?n) None)"
      by (simp add: d map_pair_const)
    also have "\<dots> = zip (take ?n f @ drop ?n f) (map Some l @ replicate (length f - ?n) None)"
      using assms(2) by (subst zip_append) simp_all
    finally show ?thesis by simp
  next
    case False
    with assms(2) have eq: "?n = length f" by simp
    then have "cells (dict_row f l) = ?d"
      by (simp add: dict_row_def Let_def)
    with d eq show ?thesis by simp
  qed
qed


lemma set_list_insert: "set (list_insert i x xs) = insert x (set xs)"
proof -
  have "set (take i xs) \<union> set (drop i xs) = set xs"
    by (metis append_take_drop_id set_append)
  then show ?thesis by (auto simp: list_insert_def)
qed

lemma map_list_insert: "map g (list_insert i x xs) = list_insert i (g x) (map g xs)"
  by (simp add: list_insert_def take_map drop_map)

lemma length_list_insert: "length (list_insert i x xs) = Suc (length xs)"
  by (simp add: list_insert_def)

lemma written_line:
  assumes dist: "distinct f" and len: "length vals = length f"
    and cells: "cells r = zip f vals" and rest: "rest r = None"
    and k0: "k0 \<in> set f" and se: "se \<notin> set f"
  shows "dict_to_list (list_insert 1 se f) (setitem r k0 (Some (py_str (cell r k0) @ ''_T1''))) =
     Inr (list_insert 1 []
       (map2 (\<lambda>k v. if k = k0 then py_str v @ ''_T1'' else field_text v) f vals))"
proof -
  let ?x = "py_str (cell r k0) @ ''_T1''"
  let ?r = "setitem r k0 (Some ?x)"
  have nth: "map_of (zip f vals) (f ! i) = Some (vals ! i)" if "i < length f" for i
    using that len dist by (simp add: map_of_zip_nth)
  have keys: "fst ` set (cells ?r) = set f"
  proof -
    have "fst ` set (zip f vals) = set f"
      using len by (simp add: fst_set_zip)
    with k0 show ?thesis
      by (auto simp: setitem_def cells dom_update)
  qed
  then have ok: "\<not> (rest ?r \<noteq> None \<or> \<not> set (map fst (cells ?r)) \<subseteq> set (list_insert 1 se f))"
    using rest by (auto simp: setitem_def set_list_insert)
  have mo: "map_of (cells ?r) k = (if k = k0 then Some (Some ?x) else map_of (zip f vals) k)" for k
    by (simp add: setitem_def cells update_conv')
  have ct: "cell_text ?r k =
      (if k = k0 then ?x
       else (case map_of (zip f vals) k of None \<Rightarrow> [] | Some v \<Rightarrow> field_text v))" for k
    by (simp add: cell_text_def mo)
  have "se \<noteq> k0" using k0 se by auto
  moreover have "map_of (zip f vals) se = None"
    using se len by (simp add: map_of_zip_is_None)
  ultimately have blank: "cell_text ?r se = []"
    by (simp add: ct)
  have line: "map (cell_text ?r) f =
      map2 (\<lambda>k v. if k = k0 then py_str v @ ''_T1'' else field_text v) f vals"
  proof (rule nth_equalityI)
    show "length (map (cell_text ?r) f) =
        length (map2 (\<lambda>k v. if k = k0 then py_str v @ ''_T1'' else field_text v) f vals)"
      using len by simp
  next
    fix i assume "i < length (map (cell_text ?r) f)"
    then have i: "i < length f" by simp
    show "map (cell_text ?r) f ! i =
        map2 (\<lambda>k v. if k = k0 then py_str v @ ''_T1'' else field_text v) f vals ! i"
    proof (cases "f ! i = k0")
      case True
      with nth [OF i] cells have c: "cell r k0 = vals ! i"
        by (simp add: cell_def)
      from True i have "map (cell_text ?r) f ! i = ?x"
        by (simp add: ct)
      moreover from True i len
      have "map2 (\<lambda>k v. if k = k0 then py_str v @ ''_T1'' else field_text v) f vals ! i =
          py_str (vals ! i) @ ''_T1''"
        by simp
      ultimately show ?thesis by (simp only: c)
    next
      case False
      from False i nth [OF i] have "map (cell_text ?r) f ! i = field_text (vals ! i)"
        by (simp add: ct)
      moreover from False i len
      have "map2 (\<lambda>k v. if k = k0 then py_str v @ ''_T1'' else field_text v) f vals ! i =
          field_text (vals ! i)"
        by simp
      ultimately show ?thesis by simp
    qed
  qed
  from ok have "dict_to_list (list_insert 1 se f) ?r = Inr (map (cell_text ?r) (list_insert 1 se f))"
    by (simp only: dict_to_list_def if_False)
  also have "map (cell_text ?r) (list_insert 1 se f) = list_insert 1 [] (map (cell_text ?r) f)"
    by (simp add: map_list_insert blank)
  finally show ?thesis by (simp only: line)
qed

lemma write_rows_all:
  "\<forall>r\<in>set rows. dict_to_list h (t r) = Inr (g r) \<Longrightarrow>
   write_rows h (map t rows) acc = (None, acc @ map g rows)"
  by (induction rows arbitrary: acc) simp_all

lemma output_lines:
  assumes req: "required_columns \<subseteq> set fieldnames"
    and dist: "distinct fieldnames"
    and se: "''single_end'' \<notin> set fieldnames"
    and short: "\<forall>l\<in>set records. length l \<le> length fieldnames"
    and valid: "\<forall>r\<in>set (dict_reader fieldnames records). validate_sample RowChecker r = None"
    and uniq: "distinct (map (\<lambda>r. cell r ''sample'') (dict_reader fieldnames records))"
  shows "check_samplesheet (Table fieldnames records) =
     (Returned, Some (list_insert 1 ''single_end'' fieldnames #
        map (\<lambda>l. list_insert 1 []
               (map2 (\<lambda>k v. if k = ''sample'' then py_str v @ ''_T1'' else field_text v)
                  fieldnames (map Some l @ replicate (length fieldnames - length l) None)))
          (filter (\<lambda>l. l \<noteq> []) records)))"
proof -
  let ?rows = "dict_reader fieldnames records"
  let ?recs = "filter (\<lambda>l. l \<noteq> []) records"
  let ?h = "list_insert 1 ''single_end'' fieldnames"
  let ?ren = "\<lambda>r. setitem r ''sample'' (Some (py_str (cell r ''sample'') @ ''_T1''))"
  let ?vals = "\<lambda>l. map Some l @ replicate (length fieldnames - length l) None"
  let ?line = "\<lambda>l. list_insert 1 []
               (map2 (\<lambda>k v. if k = ''sample'' then py_str v @ ''_T1'' else field_text v)
                  fieldnames (?vals l))"
  from valid have acc: "\<forall>r\<in>set ?rows. fst (validate_and_transform RowChecker r) = None"
    using parsed_accept_iff [OF req] by simp
  from validate_rows_all [OF acc, of 0]
  have v: "validate_rows RowChecker 0 ?rows =
      Inr (RowChecker\<lparr>seen := (\<lambda>r. cell r ''sample'') ` set ?rows, modified := ?rows\<rparr>)"
    by simp
  note u = validate_unique_samples_checked [OF acc uniq]
  have k0: "''sample'' \<in> set fieldnames" using req by (rule sample_required)
  have "\<forall>l\<in>set ?recs. dict_to_list ?h (?ren (dict_row fieldnames l)) = Inr (?line l)"
  proof
    fix l assume "l \<in> set ?recs"
    with short have len: "length l \<le> length fieldnames" by simp
    then have lv: "length (?vals l) = length fieldnames" by simp
    from written_line [OF dist lv cells_dict_row(1) [OF dist len] cells_dict_row(2) [OF dist len] k0 se]
    show "dict_to_list ?h (?ren (dict_row fieldnames l)) = Inr (?line l)" .
  qed
  from write_rows_all [where t = "\<lambda>l. ?ren (dict_row fieldnames l)" and g = ?line, OF this, of "[?h]"]
  have w: "write_rows ?h (map ?ren ?rows) [?h] = (None, ?h # map ?line ?recs)"
    by (simp add: dict_reader_def comp_def)
  from v u w show ?thesis
    by (simp add: check_table_unfold [OF req])
qed

text \<open>
  C5, as the specification states it, fails on sheets that pass every validation step.
  When the input already has a column \<open>single_end\<close>, the inserted column repeats that
  column's value instead of being empty. A record with more fields than the header makes
  the writer raise a value error after the header line is written. With a column name
  that occurs twice, both columns are written with the last value, so the row does not
  come out as it went in. And when the sniffer of the \<^verbatim>\<open>csv\<close> module sees no header
  in the sheet, the run exits before any row is read, whatever the rows are.
\<close>

theorem single_end_and_surplus_fields:
  "check_samplesheet (Table [''sample'', ''single_end'', ''vcf'', ''traits'', ''ancestry'']
      [[''S1'', ''yes'', ''a.vcf.gz'', ''a_traits-json.json'', ''a_ancestry-json.json'']]) =
     (Returned, Some
        [[''sample'', ''single_end'', ''single_end'', ''vcf'', ''traits'', ''ancestry''],
         [''S1_T1'', ''yes'', ''yes'', ''a.vcf.gz'', ''a_traits-json.json'', ''a_ancestry-json.json'']])
   \<and> check_samplesheet (Table [''sample'', ''vcf'', ''traits'', ''ancestry'']
      [[''S1'', ''a.vcf.gz'', ''a_traits-json.json'', ''a_ancestry-json.json'', ''more'']]) =
     (Uncaught ValueError, Some [[''sample'', ''single_end'', ''vcf'', ''traits'', ''ancestry'']])
   \<and> check_samplesheet (Table [''sample'', ''vcf'', ''traits'', ''ancestry'', ''note'', ''note'']
      [[''S1'', ''a.vcf.gz'', ''a_traits-json.json'', ''a_ancestry-json.json'', ''x'', ''y'']]) =
     (Returned, Some
        [[''sample'', ''single_end'', ''vcf'', ''traits'', ''ancestry'', ''note'', ''note''],
         [''S1_T1'', [], ''a.vcf.gz'', ''a_traits-json.json'', ''a_ancestry-json.json'', ''y'', ''y'']])
   \<and> check_samplesheet Headerless =
     (Sys_exit 1 [Lit ''The given sample sheet does not appear to contain a header.''], None)"
  by code_simp

text \<open>
  C5, amended. Take an input in which the \<^verbatim>\<open>csv\<close> module detects a dialect and a
  header, so that the reader yields field names and records (\<open>Table\<close>), and let the
  header have the required columns, pairwise distinct names and no column
  \<open>single_end\<close>, the records be no longer than the header, all rows pass the three
  suffix checks and the sample cells be pairwise distinct. The run returns, and the
  output has the header with \<open>single_end\<close> inserted at index 1, followed by one line
  for every non-blank record, in order. Each line has an empty field inserted at index
  1; every other field is the record's field as it is (a field missing at the end of a
  short record is written empty), except under \<open>sample\<close>, where the string \<open>s\<close>
  becomes \<open>s_T1\<close> (and a missing cell becomes \<open>None_T1\<close>). So the output has one
  column more than the input and as many lines as there are non-blank records.
\<close>

theorem output_rows_and_columns:
  assumes "required_columns \<subseteq> set fieldnames"
    and "distinct fieldnames"
    and "''single_end'' \<notin> set fieldnames"
    and "\<forall>l\<in>set records. length l \<le> length fieldnames"
    and "\<forall>r\<in>set (dict_reader fieldnames records). validate_sample RowChecker r = None"
    and "distinct (map (\<lambda>r. getitem r ''sample'') (dict_reader fieldnames records))"
  shows "check_samplesheet (Table fieldnames records) =
     (Returned, Some (list_insert 1 ''single_end'' fieldnames #
        map (\<lambda>l. list_insert 1 []
               (map2 (\<lambda>k v. if k = ''sample''
                        then (case v of None \<Rightarrow> ''None_T1'' | Some s \<Rightarrow> s @ ''_T1'')
                        else (case v of None \<Rightarrow> [] | Some s \<Rightarrow> s))
                  fieldnames (map Some l @ replicate (length fieldnames - length l) None)))
          (filter (\<lambda>l. l \<noteq> []) records)))
     \<and> (\<forall>out. snd (check_samplesheet (Table fieldnames records)) = Some out \<longrightarrow>
           length out = Suc (length (filter (\<lambda>l. l \<noteq> []) records))
         \<and> (\<forall>line\<in>set out. length line = Suc (length fieldnames)))"
proof -
  let ?rows = "dict_reader fieldnames records"
  define line where "line = (\<lambda>l. list_insert 1 []
               (map2 (\<lambda>k v. if k = ''sample''
                        then (case v of None \<Rightarrow> ''None_T1'' | Some s \<Rightarrow> s @ ''_T1'')
                        else (case v of None \<Rightarrow> [] | Some s \<Rightarrow> s))
                  fieldnames (map Some l @ replicate (length fieldnames - length l) None)))"
  define recs where "recs = filter (\<lambda>l. l \<noteq> []) records"
  define header where "header = list_insert 1 ''single_end'' fieldnames"
  have "\<forall>r\<in>set ?rows. getitem r ''sample'' = Inr (cell r ''sample'')"
  proof
    fix r assume r: "r \<in> set ?rows"
    from assms(5) r parsed_accept_iff [OF assms(1) r]
    have "fst (validate_and_transform RowChecker r) = None" by simp
    from accepted_getitem [OF this] show "getitem r ''sample'' = Inr (cell r ''sample'')" by simp
  qed
  then have "map (\<lambda>r. getitem r ''sample'') ?rows = map Inr (map (\<lambda>r. cell r ''sample'') ?rows)"
    by simp
  with assms(6) have uniq: "distinct (map (\<lambda>r. cell r ''sample'') ?rows)"
    by (simp add: distinct_map del: map_map)
  have same: "(\<lambda>k v. if k = ''sample'' then py_str v @ ''_T1'' else field_text v) =
      (\<lambda>k v. if k = ''sample''
                        then (case v of None \<Rightarrow> ''None_T1'' | Some s \<Rightarrow> s @ ''_T1'')
                        else (case v of None \<Rightarrow> [] | Some s \<Rightarrow> s))"
    by (intro ext) (simp add: sample_suffix_cases field_text_cases)
  have eq: "check_samplesheet (Table fieldnames records) = (Returned, Some (header # map line recs))"
    unfolding header_def line_def recs_def same [symmetric]
    by (rule output_lines [OF assms(1-5) uniq])
  have l1: "length (header # map line recs) = Suc (length recs)"
    by simp
  have l2: "\<forall>x\<in>set (header # map line recs). length x = Suc (length fieldnames)"
  proof
    fix x assume "x \<in> set (header # map line recs)"
    then consider "x = header" | l where "l \<in> set recs" "x = line l"
      by auto
    then show "length x = Suc (length fieldnames)"
    proof cases
      case 1
      then show ?thesis by (simp add: header_def length_list_insert)
    next
      case 2
      from 2(1) assms(4) have "length l \<le> length fieldnames"
        by (simp add: recs_def)
      with 2(2) show ?thesis
        by (simp add: line_def length_list_insert)
    qed
  qed
  from l1 l2 have "\<forall>out. snd (check_samplesheet (Table fieldnames records)) = Some out \<longrightarrow>
           length out = Suc (length recs) \<and> (\<forall>x\<in>set out. length x = Suc (length fieldnames))"
    unfolding eq by simp
  with eq show ?thesis
    unfolding header_def line_def recs_def by (intro conjI)
qed

theorem output_rows_and_columns_witness:
  "check_samplesheet (Table [''sample'', ''vcf'', ''traits'', ''ancestry'', ''note'']
      [[''S1'', ''a.vcf.gz'', ''a_traits-json.json'', ''a_ancestry-json.json'', ''first''],
       [],
       [''S2'', ''b.vcf.gz'', ''b_traits-json.json'', ''b_ancestry-json.json'']]) =
     (Returned, Some
        [[''sample'', ''single_end'', ''vcf'', ''traits'', ''ancestry'', ''note''],
         [''S1_T1'', [], ''a.vcf.gz'', ''a_traits-json.json'', ''a_ancestry-json.json'', ''first''],
         [''S2_T1'', [], ''b.vcf.gz'', ''b_traits-json.json'', ''b_ancestry-json.json'', []]])"
proof -
  let ?f = "[''sample'', ''vcf'', ''traits'', ''ancestry'', ''note'']"
  let ?recs = "[[''S1'', ''a.vcf.gz'', ''a_traits-json.json'', ''a_ancestry-json.json'', ''first''],
       [],
       [''S2'', ''b.vcf.gz'', ''b_traits-json.json'', ''b_ancestry-json.json'']]"
  have h1: "required_columns \<subseteq> set ?f"
    by (simp add: required_columns_def)
  have h2: "distinct ?f" by simp
  have h3: "''single_end'' \<notin> set ?f" by simp
  have h4: "\<forall>l\<in>set ?recs. length l \<le> length ?f" by simp
  have "list_all (\<lambda>r. validate_sample RowChecker r = None) (dict_reader ?f ?recs)"
    by code_simp
  then have h5: "\<forall>r\<in>set (dict_reader ?f ?recs). validate_sample RowChecker r = None"
    by (simp only: list_all_iff)
  have h6: "distinct (map (\<lambda>r. getitem r ''sample'') (dict_reader ?f ?recs))"
    by code_simp
  from output_rows_and_columns [OF h1 h2 h3 h4 h5 h6, THEN conjunct1] show ?thesis
    by (simp add: list_insert_def)
qed

end
